theory Spec2Isabelle
  imports Complex_Main "HOL-Library.Multiset"
begin

text \<open>
  A model of the synchronisation core of the stream HUD, and the properties of it that the
  specification states. Three programs are modelled, each from its source:
  \<^item> the checklist server (class \<open>ChecklistWebSocketServer\<close>, the variant with the HTTP
    interface): the task store with its mutations, the save and the debounced save, the
    routes, the reload of the file, and the fan-out to the sockets;
  \<^item> the data source of the overlay (\<open>ChecklistDataSource\<close>): the socket, the
    reconnect back-off and the fall-back to polling;
  \<^item> the task manager of the controller (\<open>TaskManager\<close>): the selection kept across
    updates of the list.
  Mutation of fields is state passing; what the code does to its environment (the file,
  the sockets, the console, the timers) is part of the state; time is a clock in
  milliseconds that events advance.
\<close>

section \<open>Data model of the checklist server\<close>

text \<open>
  The server of the checklist service keeps the task list in memory, mirrors it in
  \<^verbatim>\<open>configs/tasks.json\<close> and pushes it to every connected WebSocket. Its types:
  \<^verbatim>\<open>
  interface ChecklistItem { id: string; text: string; done: boolean;
                            completed?: boolean; group?: string; order?: number }
  interface ChecklistData { items: ChecklistItem[]; ts: number; selectedTaskId?: string }
  \<close>
  The field names \<open>id\<close>, \<open>text\<close> and \<open>done\<close> are taken in Isabelle, so every field
  of an item carries the prefix \<open>item_\<close>; an optional field is an \<open>option\<close>.
  \<open>data_selectedTaskId\<close> is the \<open>selectedTaskId\<close> stored inside the data object (it comes
  from the file); the server's own field of that name is a different variable.
\<close>

record checklist_item =
  item_id :: string
  item_text :: string
  item_done :: bool
  item_completed :: "bool option"
  item_group :: "string option"
  item_order :: "int option"

record checklist_data =
  items :: "checklist_item list"
  ts :: int
  data_selectedTaskId :: "string option"

text \<open>
  A connected socket: its identity, its \<open>readyState\<close>, and whether \<open>ws.send\<close> throws on
  it (the environment decides; the code catches the exception).
\<close>

datatype ready_state = CONNECTING | OPEN | CLOSING | CLOSED

record client =
  cid :: nat
  readyState :: ready_state
  sendThrows :: bool

text \<open>
  The two shapes of frame the server writes to a socket:
  \<open>TasksUpdated tasks selectedTaskId\<close> is
  \<^verbatim>\<open>{type: 'tasks_updated', tasks, selectedTaskId, source: 'ws'}\<close> and
  \<open>Payload items ts selectedTaskId\<close> is \<^verbatim>\<open>{...data, source: 'ws'}\<close>.
  A frame is the JSON text made when it is sent, so it is a value, not a reference.
\<close>

datatype frame =
    TasksUpdated "checklist_item list" "string option"
  | Payload "checklist_item list" int "string option"

text \<open>
  The file \<^verbatim>\<open>tasks.json\<close> as \<open>loadTasksFile\<close> sees it: absent, not readable as
  JSON, without an array under \<open>items\<close>, or an object with items, an optional \<open>ts\<close> and an
  optional \<open>selectedTaskId\<close>.
\<close>

datatype file_content =
    Absent
  | Unparsable
  | NoItems
  | Json "checklist_item list" "int option" "string option"

text \<open>
  The fields of \<open>ChecklistWebSocketServer\<close> that the operations read or write, followed by
  the environment they act on: the clock behind \<open>Date.now()\<close> (milliseconds), the file,
  whether \<open>writeFileSync\<close> succeeds, the lines written with \<open>console.error\<close> and
  \<open>console.warn\<close> (the informational \<open>console.log\<close> lines are left out), the
  frames handed to sockets, and the contents written to the file, oldest first.
  \<open>saveTimeout\<close> holds the time at which the pending debounce timer is due.
\<close>

record server =
  lastData :: "checklist_data option"
  selectedTaskId :: "string option"
  saveTimeout :: "nat option"
  broadcastInterval :: "nat option"
  clients :: "client list"
  clock :: nat
  tasksFile :: file_content
  fsWritable :: bool
  console :: "string list"
  wire :: "(nat \<times> frame) list"
  diskWrites :: "checklist_data list"

section \<open>Array operations\<close>

text \<open>\<open>Array.prototype.findIndex\<close>; the result \<open>-1\<close> of the source is \<open>None\<close>.\<close>

fun findIndex :: "('a \<Rightarrow> bool) \<Rightarrow> 'a list \<Rightarrow> nat option" where
  "findIndex P [] = None"
| "findIndex P (x # xs) = (if P x then Some 0 else map_option Suc (findIndex P xs))"

text \<open>\<open>xs.splice(i, 1)\<close> and \<open>xs.splice(i, 0, x)\<close>, as the array they leave behind.\<close>

definition splice_remove :: "nat \<Rightarrow> 'a list \<Rightarrow> 'a list" where
  "splice_remove i xs = take i xs @ drop (Suc i) xs"

definition splice_insert :: "nat \<Rightarrow> 'a \<Rightarrow> 'a list \<Rightarrow> 'a list" where
  "splice_insert i x xs = take i xs @ x # drop i xs"

text \<open>\<^verbatim>\<open>items.forEach((item, index) => { item.order = index })\<close>, counting from \<open>k\<close>.\<close>

fun renumber_from :: "nat \<Rightarrow> checklist_item list \<Rightarrow> checklist_item list" where
  "renumber_from k [] = []"
| "renumber_from k (item # rest) =
     item\<lparr>item_order := Some (int k)\<rparr> # renumber_from (Suc k) rest"

definition renumber :: "checklist_item list \<Rightarrow> checklist_item list" where
  "renumber xs = renumber_from 0 xs"

text \<open>\<open>v || undefined\<close> and \<open>v || null\<close> on an optional string: the empty string is falsy.\<close>

definition orNull :: "string option \<Rightarrow> string option" where
  "orNull v = (case v of None \<Rightarrow> None | Some str \<Rightarrow> if str = [] then None else Some str)"

section \<open>Persistence and fan-out\<close>

text \<open>
  \<open>saveTasksFile\<close>: the timestamp is refreshed in memory first, then the file is written;
  a failed write is caught and logged, and the refreshed timestamp stays.
\<close>

definition saveTasksFile :: "server \<Rightarrow> bool \<times> server" where
  "saveTasksFile s =
     (case lastData s of
        None \<Rightarrow> (False, s)
      | Some d \<Rightarrow>
          let d' = d\<lparr>ts := int (clock s div 1000)\<rparr>;
              s1 = s\<lparr>lastData := Some d'\<rparr>
          in if fsWritable s
             then (True, s1\<lparr>tasksFile := Json (items d') (Some (ts d')) (data_selectedTaskId d'),
                            diskWrites := diskWrites s @ [d']\<rparr>)
             else (False, s1\<lparr>console := console s @ [''Failed to save tasks file'']\<rparr>))"

text \<open>
  \<open>debouncedSave\<close>: the pending timer, if any, is cleared and a new one is set 100 ms
  ahead. \<open>saveTimerFired\<close> is the callback of that timer.
\<close>

definition debouncedSave :: "server \<Rightarrow> server" where
  "debouncedSave s = s\<lparr>saveTimeout := Some (clock s + 100)\<rparr>"

definition saveTimerFired :: "server \<Rightarrow> server" where
  "saveTimerFired s = (snd (saveTasksFile s))\<lparr>saveTimeout := None\<rparr>"

text \<open>
  The loop shared by \<open>broadcastToAll\<close> and \<open>broadcastSelectionUpdate\<close>: an open socket
  gets the message; a socket that is not open, or whose \<open>send\<close> throws, is removed from
  the registry afterwards.
\<close>

definition sendable :: "client \<Rightarrow> bool" where
  "sendable c = (readyState c = OPEN \<and> \<not> sendThrows c)"

definition fanOut :: "frame \<Rightarrow> string \<Rightarrow> server \<Rightarrow> server" where
  "fanOut message failure s =
     s\<lparr>wire := wire s @ map (\<lambda>c. (cid c, message)) (filter sendable (clients s)),
       console := console s @
          map (\<lambda>c. failure) (filter (\<lambda>c. readyState c = OPEN \<and> sendThrows c) (clients s)),
       clients := filter sendable (clients s)\<rparr>"

definition broadcastToAll :: "checklist_data \<Rightarrow> server \<Rightarrow> server" where
  "broadcastToAll data s =
     (if clients s = [] then s
      else fanOut (TasksUpdated (items data) (orNull (selectedTaskId s)))
             ''Failed to broadcast to client'' s)"

definition broadcastSelectionUpdate :: "server \<Rightarrow> server" where
  "broadcastSelectionUpdate s =
     (case lastData s of
        None \<Rightarrow> s
      | Some d \<Rightarrow> fanOut (Payload (items d) (ts d) (orNull (selectedTaskId s)))
                    ''Failed to broadcast selection update'' s)"

text \<open>\<open>this.broadcastToAll(this.lastData)\<close>, as every mutation ends.\<close>

definition broadcastLastData :: "server \<Rightarrow> server" where
  "broadcastLastData s = (case lastData s of None \<Rightarrow> s | Some d \<Rightarrow> broadcastToAll d s)"

definition sendToClient :: "client \<Rightarrow> checklist_data \<Rightarrow> server \<Rightarrow> server" where
  "sendToClient c data s =
     (if readyState c = OPEN
      then if sendThrows c
           then s\<lparr>console := console s @ [''Failed to send data to client''],
                  clients := filter (\<lambda>c'. cid c' \<noteq> cid c) (clients s)\<rparr>
           else s\<lparr>wire := wire s @ [(cid c, Payload (items data) (ts data) (data_selectedTaskId data))]\<rparr>
      else s)"

section \<open>The task store\<close>

text \<open>
  Each method returns the boolean of the source and the state it leaves. Where the source
  takes a reference to an item with \<open>find\<close> and assigns to its fields, the model finds
  the index of that item (the first one with the id) and replaces the item there. The
  items of the array are distinct objects (they come from \<open>JSON.parse\<close> or from
  \<open>addTask\<close>), so an assignment through one reference changes one element only.
\<close>

definition hasId :: "string \<Rightarrow> checklist_item \<Rightarrow> bool" where
  "hasId taskId item = (item_id item = taskId)"

definition toggleTaskById :: "string \<Rightarrow> server \<Rightarrow> bool \<times> server" where
  "toggleTaskById taskId s =
     (case lastData s of
        None \<Rightarrow> (False, s)
      | Some d \<Rightarrow>
          (case findIndex (hasId taskId) (items d) of
             None \<Rightarrow> (False, s)
           | Some i \<Rightarrow>
               let task = items d ! i;
                   task' = task\<lparr>item_done := \<not> item_done task,
                                item_completed := Some (\<not> item_done task)\<rparr>;
                   s1 = s\<lparr>lastData := Some (d\<lparr>items := (items d)[i := task']\<rparr>)\<rparr>
               in (True, broadcastLastData (snd (saveTasksFile s1)))))"

definition resetAllTasks :: "server \<Rightarrow> bool \<times> server" where
  "resetAllTasks s =
     (case lastData s of
        None \<Rightarrow> (False, s)
      | Some d \<Rightarrow>
          let cleared = map (\<lambda>item. item\<lparr>item_done := False, item_completed := Some False\<rparr>)
                          (items d);
              s1 = s\<lparr>lastData := Some (d\<lparr>items := cleared\<rparr>)\<rparr>
          in (True, broadcastLastData (snd (saveTasksFile s1))))"

text \<open>
  \<open>addTask\<close>: the id of the new task is made of \<open>Date.now()\<close> and random digits; the
  model takes the finished id as the argument \<open>newId\<close>.
\<close>

definition addTask :: "string \<Rightarrow> string \<Rightarrow> server \<Rightarrow> bool \<times> server" where
  "addTask newId taskText s =
     (case lastData s of
        None \<Rightarrow> (False, s)
      | Some d \<Rightarrow>
          let newTask = \<lparr>item_id = newId, item_text = taskText, item_done = False,
                         item_completed = Some False, item_group = None,
                         item_order = Some (int (length (items d)))\<rparr>;
              s1 = s\<lparr>lastData := Some (d\<lparr>items := items d @ [newTask]\<rparr>)\<rparr>
          in (True, broadcastLastData (snd (saveTasksFile s1))))"

definition deleteTask :: "string \<Rightarrow> server \<Rightarrow> bool \<times> server" where
  "deleteTask taskId s =
     (case lastData s of
        None \<Rightarrow> (False, s)
      | Some d \<Rightarrow>
          (case findIndex (hasId taskId) (items d) of
             None \<Rightarrow> (False, s)
           | Some taskIndex \<Rightarrow>
               let s1 = s\<lparr>lastData :=
                          Some (d\<lparr>items := renumber (splice_remove taskIndex (items d))\<rparr>)\<rparr>
               in (True, broadcastLastData (snd (saveTasksFile s1)))))"

definition editTask :: "string \<Rightarrow> string \<Rightarrow> server \<Rightarrow> bool \<times> server" where
  "editTask taskId newText s =
     (case lastData s of
        None \<Rightarrow> (False, s)
      | Some d \<Rightarrow>
          (case findIndex (hasId taskId) (items d) of
             None \<Rightarrow> (False, s)
           | Some i \<Rightarrow>
               let s1 = s\<lparr>lastData :=
                          Some (d\<lparr>items := (items d)[i := (items d ! i)\<lparr>item_text := newText\<rparr>]\<rparr>)\<rparr>
               in (True, broadcastLastData (snd (saveTasksFile s1)))))"

text \<open>
  The swap of \<open>moveTaskUp\<close> and \<open>moveTaskDown\<close>: the items at \<open>i\<close> and \<open>j\<close> change
  places and only these two get their \<open>order\<close> set, each to its new index.
\<close>

definition swapItems :: "nat \<Rightarrow> nat \<Rightarrow> checklist_item list \<Rightarrow> checklist_item list" where
  "swapItems i j xs =
     (let task = xs ! i;
          ys = (xs[i := xs ! j])[j := task];
          zs = ys[i := (ys ! i)\<lparr>item_order := Some (int i)\<rparr>]
      in zs[j := (zs ! j)\<lparr>item_order := Some (int j)\<rparr>])"

definition moveUpItems :: "nat \<Rightarrow> checklist_item list \<Rightarrow> checklist_item list" where
  "moveUpItems taskIndex xs =
     (if taskIndex = 0
      then renumber (splice_remove taskIndex xs @ [xs ! taskIndex])
      else swapItems taskIndex (taskIndex - 1) xs)"

definition moveDownItems :: "nat \<Rightarrow> checklist_item list \<Rightarrow> checklist_item list" where
  "moveDownItems taskIndex xs =
     (if taskIndex = length xs - 1
      then renumber (xs ! taskIndex # splice_remove taskIndex xs)
      else swapItems taskIndex (taskIndex + 1) xs)"

definition moveTaskUp :: "string \<Rightarrow> server \<Rightarrow> bool \<times> server" where
  "moveTaskUp taskId s =
     (case lastData s of
        None \<Rightarrow> (False, s)
      | Some d \<Rightarrow>
          if items d = [] then (False, s)
          else (case findIndex (hasId taskId) (items d) of
                  None \<Rightarrow> (False, s)
                | Some taskIndex \<Rightarrow>
                    let s1 = s\<lparr>lastData := Some (d\<lparr>items := moveUpItems taskIndex (items d)\<rparr>)\<rparr>
                    in (True, broadcastLastData (debouncedSave s1))))"

definition moveTaskDown :: "string \<Rightarrow> server \<Rightarrow> bool \<times> server" where
  "moveTaskDown taskId s =
     (case lastData s of
        None \<Rightarrow> (False, s)
      | Some d \<Rightarrow>
          if items d = [] then (False, s)
          else (case findIndex (hasId taskId) (items d) of
                  None \<Rightarrow> (False, s)
                | Some taskIndex \<Rightarrow>
                    let s1 = s\<lparr>lastData := Some (d\<lparr>items := moveDownItems taskIndex (items d)\<rparr>)\<rparr>
                    in (True, broadcastLastData (debouncedSave s1))))"

text \<open>
  \<open>moveTaskToPosition\<close>. The target is a JavaScript number that the route has checked to
  be a number and not negative; it need not be whole, so it is a rational here.
  \<open>clampedPosition\<close> is \<^verbatim>\<open>Math.max(0, Math.min(targetPosition, maxPosition))\<close> with
  \<open>maxPosition = items.length - 1\<close>; \<open>splice\<close> truncates its start index to an integer.
\<close>

definition clampedPosition :: "rat \<Rightarrow> checklist_item list \<Rightarrow> rat" where
  "clampedPosition targetPosition xs = max 0 (min targetPosition (of_int (int (length xs) - 1)))"

definition moveTaskToPosition :: "string \<Rightarrow> rat \<Rightarrow> server \<Rightarrow> bool \<times> server" where
  "moveTaskToPosition taskId targetPosition s =
     (case lastData s of
        None \<Rightarrow> (False, s)
      | Some d \<Rightarrow>
          if items d = [] then (False, s)
          else (case findIndex (hasId taskId) (items d) of
                  None \<Rightarrow> (False, s)
                | Some currentIndex \<Rightarrow>
                    if of_nat currentIndex = clampedPosition targetPosition (items d)
                    then (True, s)
                    else
                      let task = items d ! currentIndex;
                          moved = splice_insert
                                    (nat \<lfloor>clampedPosition targetPosition (items d)\<rfloor>) task
                                    (splice_remove currentIndex (items d));
                          s1 = s\<lparr>lastData := Some (d\<lparr>items := renumber moved\<rparr>)\<rparr>
                      in (True, broadcastLastData (debouncedSave s1))))"

text \<open>The mutations of the store as data, and a sequence of them applied in order.\<close>

datatype mutation =
    Toggle string
  | Reset
  | Add string string
  | Delete string
  | Edit string string
  | MoveUp string
  | MoveDown string
  | MoveToPosition string rat

fun mutate :: "mutation \<Rightarrow> server \<Rightarrow> bool \<times> server" where
  "mutate (Toggle taskId) s = toggleTaskById taskId s"
| "mutate Reset s = resetAllTasks s"
| "mutate (Add newId taskText) s = addTask newId taskText s"
| "mutate (Delete taskId) s = deleteTask taskId s"
| "mutate (Edit taskId newText) s = editTask taskId newText s"
| "mutate (MoveUp taskId) s = moveTaskUp taskId s"
| "mutate (MoveDown taskId) s = moveTaskDown taskId s"
| "mutate (MoveToPosition taskId targetPosition) s = moveTaskToPosition taskId targetPosition s"

definition mutateAll :: "mutation list \<Rightarrow> server \<Rightarrow> server" where
  "mutateAll ms s = foldl (\<lambda>s' m. snd (mutate m s')) s ms"

text \<open>The items of the store; an unloaded store has none.\<close>

definition storeItems :: "server \<Rightarrow> checklist_item list" where
  "storeItems s = (case lastData s of None \<Rightarrow> [] | Some d \<Rightarrow> items d)"

text \<open>
  Two readings of "the order values are dense": \<open>dense\<close> compares multisets, as the data
  model words it; \<open>positional\<close> says that every item carries its own index.
\<close>

definition dense :: "checklist_item list \<Rightarrow> bool" where
  "dense xs = (mset (map item_order xs) = mset (map (\<lambda>i. Some (int i)) [0..<length xs]))"

definition positional :: "checklist_item list \<Rightarrow> bool" where
  "positional xs = (map item_order xs = map (\<lambda>i. Some (int i)) [0..<length xs])"

section \<open>The file reconciler\<close>

definition loadTasksFile :: "server \<Rightarrow> checklist_data option \<times> server" where
  "loadTasksFile s =
     (case tasksFile s of
        Absent \<Rightarrow> (None, s\<lparr>console := console s @ [''Tasks file not found'']\<rparr>)
      | Unparsable \<Rightarrow> (None, s\<lparr>console := console s @ [''Failed to load tasks file'']\<rparr>)
      | NoItems \<Rightarrow>
          (None, s\<lparr>console := console s @
             [''Invalid tasks file format: missing or invalid items array'']\<rparr>)
      | Json fileItems fileTs fileSelected \<Rightarrow>
          (Some \<lparr>items = fileItems,
                 ts = (case fileTs of
                         None \<Rightarrow> int (clock s div 1000)
                       | Some t \<Rightarrow> if t = 0 then int (clock s div 1000) else t),
                 data_selectedTaskId = fileSelected\<rparr>, s))"

definition loadAndBroadcast :: "server \<Rightarrow> server" where
  "loadAndBroadcast s =
     (case loadTasksFile s of
        (None, s1) \<Rightarrow> s1
      | (Some data, s1) \<Rightarrow> broadcastToAll data (s1\<lparr>lastData := Some data\<rparr>))"

section \<open>The routes\<close>

text \<open>
  A response is a status and a body. The body of a success lists the fields that come
  with \<open>success: true\<close>. A field of a request body that may be missing is an \<open>option\<close>;
  \<open>falsy\<close> is the test \<open>!v\<close> on such a string.
\<close>

datatype body =
    Error string
  | Tasks "checklist_item list"
  | Success "(string \<times> string option) list"

datatype response = Response nat body

definition falsy :: "string option \<Rightarrow> bool" where
  "falsy v = (case v of None \<Rightarrow> True | Some str \<Rightarrow> str = [])"

text \<open>
  \<open>String.prototype.trim\<close> on the white space of ASCII (the strings of the model are
  byte strings; the white space beyond ASCII is not covered).
\<close>

definition isSpace :: "char \<Rightarrow> bool" where
  "isSpace c = (c \<in> set [CHR 0x09, CHR 0x0A, CHR 0x0B, CHR 0x0C, CHR 0x0D, CHR 0x20])"

definition trim :: "string \<Rightarrow> string" where
  "trim str = rev (dropWhile isSpace (rev (dropWhile isSpace str)))"

definition blank :: "string option \<Rightarrow> bool" where
  "blank v = (case v of None \<Rightarrow> True | Some str \<Rightarrow> str = [] \<or> trim str = [])"

text \<open>\<open>authenticateAdmin\<close>: \<open>None\<close> stands for the call of \<open>next()\<close>.\<close>

definition adminToken :: string where
  "adminToken = ''devtoken''"

definition authenticateAdmin :: "string option \<Rightarrow> response option" where
  "authenticateAdmin authHeader =
     (case authHeader of
        None \<Rightarrow> Some (Response 401 (Error ''Missing or invalid authorization header''))
      | Some h \<Rightarrow>
          if h = [] \<or> take 7 h \<noteq> ''Bearer ''
          then Some (Response 401 (Error ''Missing or invalid authorization header''))
          else if drop 7 h \<noteq> adminToken
          then Some (Response 403 (Error ''Invalid admin token''))
          else None)"

definition noData :: response where
  "noData = Response 404 (Error ''No tasks data available'')"

text \<open>\<open>item.done || item.completed || false\<close>\<close>

definition completedFlag :: "checklist_item \<Rightarrow> bool" where
  "completedFlag item =
     (item_done item \<or> (case item_completed item of None \<Rightarrow> False | Some b \<Rightarrow> b) \<or> False)"

definition get_tasks :: "server \<Rightarrow> response \<times> server" where
  "get_tasks s =
     (case lastData s of
        None \<Rightarrow> (noData, s)
      | Some d \<Rightarrow>
          (Response 200
             (Tasks (map (\<lambda>item. item\<lparr>item_completed := Some (completedFlag item)\<rparr>) (items d))),
           s))"

definition post_toggle_next :: "server \<Rightarrow> response \<times> server" where
  "post_toggle_next s =
     (case lastData s of
        None \<Rightarrow> (noData, s)
      | Some d \<Rightarrow>
          (case List.find (\<lambda>item. \<not> item_done item \<and> item_completed item \<noteq> Some True) (items d) of
             None \<Rightarrow> (Response 404 (Error ''No incomplete tasks found''), s)
           | Some firstIncomplete \<Rightarrow>
               (Response 200 (Success [(''toggledTask'', Some (item_id firstIncomplete))]),
                snd (toggleTaskById (item_id firstIncomplete) s))))"

definition post_toggle :: "string option \<Rightarrow> server \<Rightarrow> response \<times> server" where
  "post_toggle reqId s =
     (case reqId of
        None \<Rightarrow> (Response 400 (Error ''Task ID is required''), s)
      | Some taskId \<Rightarrow>
          if taskId = [] then (Response 400 (Error ''Task ID is required''), s)
          else (case lastData s of
                  None \<Rightarrow> (noData, s)
                | Some d \<Rightarrow>
                    (case List.find (hasId taskId) (items d) of
                       None \<Rightarrow> (Response 404 (Error ''Task not found''), s)
                     | Some task \<Rightarrow>
                         (Response 200 (Success [(''toggledTask'', Some taskId)]),
                          snd (toggleTaskById taskId s)))))"

definition post_reset :: "bool \<Rightarrow> server \<Rightarrow> response \<times> server" where
  "post_reset confirm s =
     (if \<not> confirm then (Response 400 (Error ''Confirmation required''), s)
      else (case lastData s of
              None \<Rightarrow> (noData, s)
            | Some d \<Rightarrow>
                (Response 200 (Success [(''message'', Some ''All tasks reset to incomplete'')]),
                 snd (resetAllTasks s))))"

definition post_add :: "string option \<Rightarrow> string \<Rightarrow> server \<Rightarrow> response \<times> server" where
  "post_add reqText newId s =
     (case reqText of
        None \<Rightarrow> (Response 400 (Error ''Task text is required''), s)
      | Some taskText \<Rightarrow>
          if blank reqText then (Response 400 (Error ''Task text is required''), s)
          else (case lastData s of
                  None \<Rightarrow> (noData, s)
                | Some d \<Rightarrow>
                    (Response 200 (Success [(''message'', Some ''Task added successfully'')]),
                     snd (addTask newId (trim taskText) s))))"

definition post_delete :: "string option \<Rightarrow> server \<Rightarrow> response \<times> server" where
  "post_delete reqId s =
     (case reqId of
        None \<Rightarrow> (Response 400 (Error ''Task ID is required''), s)
      | Some taskId \<Rightarrow>
          if taskId = [] then (Response 400 (Error ''Task ID is required''), s)
          else (case lastData s of
                  None \<Rightarrow> (noData, s)
                | Some d \<Rightarrow>
                    (case findIndex (hasId taskId) (items d) of
                       None \<Rightarrow> (Response 404 (Error ''Task not found''), s)
                     | Some taskIndex \<Rightarrow>
                         (Response 200
                            (Success [(''message'', Some ''Task deleted successfully''),
                                      (''deletedTask'', Some (item_text (items d ! taskIndex)))]),
                          snd (deleteTask taskId s)))))"

definition post_edit :: "string option \<Rightarrow> string option \<Rightarrow> server \<Rightarrow> response \<times> server" where
  "post_edit reqId reqText s =
     (case (reqId, reqText) of
        (Some taskId, Some newText) \<Rightarrow>
          if taskId = [] then (Response 400 (Error ''Task ID is required''), s)
          else if blank reqText then (Response 400 (Error ''Task text is required''), s)
          else (case lastData s of
                  None \<Rightarrow> (noData, s)
                | Some d \<Rightarrow>
                    (case List.find (hasId taskId) (items d) of
                       None \<Rightarrow> (Response 404 (Error ''Task not found''), s)
                     | Some task \<Rightarrow>
                         (Response 200
                            (Success [(''message'', Some ''Task updated successfully''),
                                      (''oldText'', Some (item_text task)),
                                      (''newText'', Some (trim newText))]),
                          snd (editTask taskId (trim newText) s))))
      | (None, _) \<Rightarrow> (Response 400 (Error ''Task ID is required''), s)
      | (Some taskId, None) \<Rightarrow>
          if taskId = [] then (Response 400 (Error ''Task ID is required''), s)
          else (Response 400 (Error ''Task text is required''), s))"

definition post_select :: "string option \<Rightarrow> server \<Rightarrow> response \<times> server" where
  "post_select taskId s =
     (case lastData s of
        None \<Rightarrow> (noData, s)
      | Some d \<Rightarrow>
          if \<not> falsy taskId \<and> List.find (\<lambda>item. Some (item_id item) = taskId) (items d) = None
          then (Response 404 (Error ''Task not found''), s)
          else
            let s1 = s\<lparr>selectedTaskId := orNull taskId\<rparr>
            in (Response 200 (Success [(''selectedTaskId'', selectedTaskId s1)]),
                broadcastSelectionUpdate s1))"

definition post_move_up :: "string option \<Rightarrow> server \<Rightarrow> response \<times> server" where
  "post_move_up reqId s =
     (case reqId of
        None \<Rightarrow> (Response 400 (Error ''Task ID is required''), s)
      | Some taskId \<Rightarrow>
          if taskId = [] then (Response 400 (Error ''Task ID is required''), s)
          else (case lastData s of
                  None \<Rightarrow> (noData, s)
                | Some d \<Rightarrow>
                    let (success, s1) = moveTaskUp taskId s
                    in if \<not> success
                       then (Response 404 (Error ''Task not found or cannot move up''), s1)
                       else (Response 200
                               (Success [(''message'', Some ''Task moved up successfully'')]),
                             s1)))"

definition post_move_down :: "string option \<Rightarrow> server \<Rightarrow> response \<times> server" where
  "post_move_down reqId s =
     (case reqId of
        None \<Rightarrow> (Response 400 (Error ''Task ID is required''), s)
      | Some taskId \<Rightarrow>
          if taskId = [] then (Response 400 (Error ''Task ID is required''), s)
          else (case lastData s of
                  None \<Rightarrow> (noData, s)
                | Some d \<Rightarrow>
                    let (success, s1) = moveTaskDown taskId s
                    in if \<not> success
                       then (Response 404 (Error ''Task not found or cannot move down''), s1)
                       else (Response 200
                               (Success [(''message'', Some ''Task moved down successfully'')]),
                             s1)))"

text \<open>
  The target position of the request is \<open>None\<close> when it is not a number.
\<close>

definition post_move_to_position ::
  "string option \<Rightarrow> rat option \<Rightarrow> server \<Rightarrow> response \<times> server" where
  "post_move_to_position reqTaskId reqPosition s =
     (if falsy reqTaskId then (Response 400 (Error ''Task ID is required''), s)
      else (case (reqTaskId, reqPosition) of
              (Some taskId, Some targetPosition) \<Rightarrow>
                if targetPosition < 0
                then (Response 400 (Error ''Valid target position is required''), s)
                else (case lastData s of
                        None \<Rightarrow> (noData, s)
                      | Some d \<Rightarrow>
                          let (success, s1) = moveTaskToPosition taskId targetPosition s
                          in if \<not> success
                             then (Response 404 (Error ''Task not found or invalid position''), s1)
                             else (Response 200
                                     (Success [(''message'',
                                                Some ''Task moved to position successfully'')]),
                                   s1))
            | _ \<Rightarrow> (Response 400 (Error ''Valid target position is required''), s)))"

section \<open>The server as an event handler\<close>

text \<open>
  The requests of the HTTP interface. \<open>GET /tasks\<close> needs no credential; every
  \<open>POST\<close> route passes \<open>authenticateAdmin\<close> first. The id that \<open>addTask\<close> generates
  travels with the request, since the environment decides it.
\<close>

datatype request =
    GetTasks
  | PostToggleNext
  | PostToggle "string option"
  | PostReset bool
  | PostAdd "string option" string
  | PostDelete "string option"
  | PostEdit "string option" "string option"
  | PostSelect "string option"
  | PostMoveUp "string option"
  | PostMoveDown "string option"
  | PostMoveToPosition "string option" "rat option"

fun handler :: "request \<Rightarrow> server \<Rightarrow> response \<times> server" where
  "handler GetTasks s = get_tasks s"
| "handler PostToggleNext s = post_toggle_next s"
| "handler (PostToggle reqId) s = post_toggle reqId s"
| "handler (PostReset confirm) s = post_reset confirm s"
| "handler (PostAdd reqText newId) s = post_add reqText newId s"
| "handler (PostDelete reqId) s = post_delete reqId s"
| "handler (PostEdit reqId reqText) s = post_edit reqId reqText s"
| "handler (PostSelect taskId) s = post_select taskId s"
| "handler (PostMoveUp reqId) s = post_move_up reqId s"
| "handler (PostMoveDown reqId) s = post_move_down reqId s"
| "handler (PostMoveToPosition reqTaskId reqPosition) s =
     post_move_to_position reqTaskId reqPosition s"

definition route :: "string option \<Rightarrow> request \<Rightarrow> server \<Rightarrow> response \<times> server" where
  "route authHeader req s =
     (if req = GetTasks then handler req s
      else (case authenticateAdmin authHeader of
              Some refusal \<Rightarrow> (refusal, s)
            | None \<Rightarrow> handler req s))"

text \<open>
  Time. The only timer the server ever sets is the debounce timer of \<open>debouncedSave\<close>;
  \<open>broadcastInterval\<close> is declared and cleared in \<open>stop\<close> but never assigned. When
  \<open>dt\<close> milliseconds pass, a pending timer that falls due fires at its due time, before
  anything that arrives later is handled.
\<close>

definition elapse :: "nat \<Rightarrow> server \<Rightarrow> server" where
  "elapse dt s =
     (case saveTimeout s of
        None \<Rightarrow> s\<lparr>clock := clock s + dt\<rparr>
      | Some due \<Rightarrow>
          if due \<le> clock s + dt
          then (saveTimerFired (s\<lparr>clock := max due (clock s)\<rparr>))\<lparr>clock := clock s + dt\<rparr>
          else s\<lparr>clock := clock s + dt\<rparr>)"

text \<open>
  The events of the server: a request with its \<open>Authorization\<close> header, a change event
  of the file watcher, the passing of time, a new socket, and the close or error event of
  a socket.
\<close>

datatype event =
    Request "string option" request
  | FileChange
  | Elapse nat
  | Connection client
  | SocketClose nat
  | SocketError nat

fun step :: "event \<Rightarrow> server \<Rightarrow> server" where
  "step (Request authHeader req) s = snd (route authHeader req s)"
| "step FileChange s = loadAndBroadcast s"
| "step (Elapse dt) s = elapse dt s"
| "step (Connection c) s =
     (let s1 = s\<lparr>clients := clients s @ [c]\<rparr>
      in case lastData s1 of None \<Rightarrow> s1 | Some d \<Rightarrow> sendToClient c d s1)"
| "step (SocketClose k) s = s\<lparr>clients := filter (\<lambda>c. cid c \<noteq> k) (clients s)\<rparr>"
| "step (SocketError k) s =
     s\<lparr>console := console s @ [''WebSocket error''],
       clients := filter (\<lambda>c. cid c \<noteq> k) (clients s)\<rparr>"

definition run :: "event list \<Rightarrow> server \<Rightarrow> server" where
  "run es s = foldl (\<lambda>s' e. step e s') s es"

text \<open>The constructor: the fields as declared, then \<open>loadInitialData\<close>.\<close>

definition boot :: "file_content \<Rightarrow> bool \<Rightarrow> nat \<Rightarrow> server" where
  "boot file writable now =
     loadAndBroadcast
       \<lparr>lastData = None, selectedTaskId = None, saveTimeout = None, broadcastInterval = None,
        clients = [], clock = now, tasksFile = file, fsWritable = writable,
        console = [], wire = [], diskWrites = []\<rparr>"

text \<open>
  A burst of calls: before each mutation the given number of milliseconds passes.
\<close>

fun burst :: "(nat \<times> mutation) list \<Rightarrow> server \<Rightarrow> server" where
  "burst [] s = s"
| "burst ((gap, m) # rest) s = burst rest (snd (mutate m (elapse gap s)))"

text \<open>
  The earlier variant of the server (\<^verbatim>\<open>services/checklist-ws/src/server.ts\<close>) has no
  HTTP interface and no store; its constructor calls \<open>startPeriodicBroadcast\<close>, whose
  interval callback, every 2000 ms, is:
\<close>

definition periodicBroadcast_earlier :: "server \<Rightarrow> server" where
  "periodicBroadcast_earlier s =
     (case lastData s of
        None \<Rightarrow> s
      | Some d \<Rightarrow>
          if clients s = [] then s
          else fanOut (Payload (items d) (ts d) (data_selectedTaskId d))
                 ''Failed to broadcast to client'' s)"

section \<open>The data source of the overlay\<close>

text \<open>
  \<open>ChecklistDataSource\<close> of \<^verbatim>\<open>apps/checklist-overlay/src/lib/ws.ts\<close>: the fields of
  the class, then what the environment holds for it: the reconnect timers that are armed
  (each with its delay), whether the one-second timer of \<open>start\<close> is armed, and counters
  of what was observed: the delay of every reconnect that was scheduled, the number of
  sockets constructed and of polls made, and the calls of \<open>onStatus\<close>. \<open>socket\<close> is the
  field \<open>ws\<close> (with the state of the socket it refers to), \<open>pollInterval\<close> tells whether
  the interval handle is set, \<open>reconnectTimeout\<close> is the handle last stored (the delay of
  that timer); \<open>constructible\<close> is false when \<open>new WebSocket\<close> throws.
\<close>

datatype source = WS | POLL

record data_source =
  socket :: "ready_state option"
  pollInterval :: bool
  reconnectTimeout :: "nat option"
  isConnected :: bool
  currentSource :: source
  reconnectAttempts :: nat
  maxReconnectAttempts :: nat
  constructible :: bool
  armedReconnects :: "nat list"
  fallbackArmed :: bool
  delays :: "nat list"
  connects :: nat
  polls :: nat
  statuses :: "(bool \<times> source) list"

definition newDataSource :: "bool \<Rightarrow> data_source" where
  "newDataSource ok =
     \<lparr>socket = None, pollInterval = False, reconnectTimeout = None, isConnected = False,
      currentSource = POLL, reconnectAttempts = 0, maxReconnectAttempts = 5,
      constructible = ok, armedReconnects = [], fallbackArmed = False, delays = [],
      connects = 0, polls = 0, statuses = []\<rparr>"

definition pollOnce :: "data_source \<Rightarrow> data_source" where
  "pollOnce a = a\<lparr>polls := polls a + 1\<rparr>"

definition startPolling :: "data_source \<Rightarrow> data_source" where
  "startPolling a =
     (if pollInterval a then a
      else (pollOnce (a\<lparr>currentSource := POLL, statuses := statuses a @ [(False, POLL)]\<rparr>))
             \<lparr>pollInterval := True\<rparr>)"

definition stopPolling :: "data_source \<Rightarrow> data_source" where
  "stopPolling a = a\<lparr>pollInterval := False\<rparr>"

definition connectWebSocket :: "data_source \<Rightarrow> data_source" where
  "connectWebSocket a =
     (if constructible a
      then a\<lparr>socket := Some CONNECTING, connects := connects a + 1\<rparr>
      else startPolling a)"

definition scheduleReconnect :: "data_source \<Rightarrow> data_source" where
  "scheduleReconnect a =
     (let delay = min (1000 * 2 ^ reconnectAttempts a) 30000
      in a\<lparr>reconnectAttempts := reconnectAttempts a + 1,
           reconnectTimeout := Some delay,
           armedReconnects := armedReconnects a @ [delay],
           delays := delays a @ [delay]\<rparr>)"

definition onopen :: "data_source \<Rightarrow> data_source" where
  "onopen a =
     (stopPolling (a\<lparr>isConnected := True, currentSource := WS, reconnectAttempts := 0\<rparr>))
       \<lparr>statuses := statuses a @ [(True, WS)]\<rparr>"

definition onclose :: "data_source \<Rightarrow> data_source" where
  "onclose a =
     (let a1 = a\<lparr>isConnected := False, socket := None\<rparr>
      in if reconnectAttempts a1 < maxReconnectAttempts a1
         then scheduleReconnect a1
         else startPolling a1)"

definition start :: "data_source \<Rightarrow> data_source" where
  "start a = (connectWebSocket a)\<lparr>fallbackArmed := True\<rparr>"

definition forceReload :: "data_source \<Rightarrow> data_source" where
  "forceReload a = (if currentSource a = POLL then pollOnce a else a)"

text \<open>
  What can happen to a started data source: the socket opens or closes, a reconnect timer
  or the one-second timer of \<open>start\<close> fires, the poll interval ticks, the consumer asks
  for a reload. An event that is not possible in a state (no socket, no armed timer)
  leaves it as it is.
\<close>

datatype agent_event =
    SocketOpened
  | SocketClosed
  | ReconnectTimer
  | FallbackTimer
  | PollTick
  | ForceReload

fun agent_step :: "agent_event \<Rightarrow> data_source \<Rightarrow> data_source" where
  "agent_step SocketOpened a =
     (if socket a = Some CONNECTING then onopen (a\<lparr>socket := Some OPEN\<rparr>) else a)"
| "agent_step SocketClosed a = (if socket a = None then a else onclose a)"
| "agent_step ReconnectTimer a =
     (case armedReconnects a of
        [] \<Rightarrow> a
      | delay # rest \<Rightarrow> connectWebSocket (a\<lparr>armedReconnects := rest\<rparr>))"
| "agent_step FallbackTimer a =
     (if fallbackArmed a
      then (let a1 = a\<lparr>fallbackArmed := False\<rparr>
            in if isConnected a1 then a1 else startPolling a1)
      else a)"
| "agent_step PollTick a = (if pollInterval a then pollOnce a else a)"
| "agent_step ForceReload a = forceReload a"

definition agent_run :: "agent_event list \<Rightarrow> data_source \<Rightarrow> data_source" where
  "agent_run es a = foldl (\<lambda>a' e. agent_step e a') a es"

text \<open>
  One failed cycle of the push channel: the socket closes without having opened, and the
  reconnect timer, if one was set, fires.
\<close>

definition failedCycle :: "data_source \<Rightarrow> data_source" where
  "failedCycle a = agent_step ReconnectTimer (agent_step SocketClosed a)"

section \<open>The selection of the controller\<close>

text \<open>
  \<open>TaskManager\<close> of \<^verbatim>\<open>apps/hud-controller/src/tasks.ts\<close> keeps the tasks it last
  received and the index of the selected one. Its \<open>Task\<close> has the fields \<open>id\<close>, \<open>text\<close>,
  \<open>completed\<close> and an optional \<open>order\<close>.
\<close>

record task =
  task_id :: string
  task_text :: string
  task_completed :: bool
  task_order :: "int option"

record task_manager =
  tasks :: "task list"
  selectedIndex :: int

text \<open>\<open>xs[i]\<close> of JavaScript: \<open>undefined\<close> outside the array.\<close>

definition at_index :: "'a list \<Rightarrow> int \<Rightarrow> 'a option" where
  "at_index xs i = (if 0 \<le> i \<and> i < int (length xs) then Some (xs ! nat i) else None)"

definition clampSelection :: "task_manager \<Rightarrow> task_manager" where
  "clampSelection m =
     (let m1 = m\<lparr>selectedIndex := min (selectedIndex m) (int (length (tasks m)) - 1)\<rparr>
      in m1\<lparr>selectedIndex := max 0 (selectedIndex m1)\<rparr>)"

definition selectNewTask :: "task list \<Rightarrow> task_manager \<Rightarrow> task_manager" where
  "selectNewTask previousTasks m =
     (if length (tasks m) > length previousTasks
      then
        let previousTaskIds = set (map task_id previousTasks);
            newTasks = filter (\<lambda>t. task_id t \<notin> previousTaskIds) (tasks m)
        in if length newTasks > 0
           then (case findIndex (\<lambda>t. task_id t \<notin> previousTaskIds) (tasks m) of
                   Some firstNewTaskIndex \<Rightarrow> m\<lparr>selectedIndex := int firstNewTaskIndex\<rparr>
                 | None \<Rightarrow> clampSelection m)
           else clampSelection m
      else clampSelection m)"

definition maintainSelection :: "task list \<Rightarrow> task_manager \<Rightarrow> task_manager" where
  "maintainSelection previousTasks m =
     (if length previousTasks = 0 \<or> length (tasks m) = 0 then m\<lparr>selectedIndex := 0\<rparr>
      else
        (case at_index previousTasks (selectedIndex m) of
           None \<Rightarrow> selectNewTask previousTasks m
         | Some previousSelectedTask \<Rightarrow>
             (case findIndex (\<lambda>t. task_id t = task_id previousSelectedTask) (tasks m) of
                Some newIndex \<Rightarrow> m\<lparr>selectedIndex := int newIndex\<rparr>
              | None \<Rightarrow> selectNewTask previousTasks m)))"

text \<open>
  \<open>updateTasks\<close>: the new list is sorted by \<open>order || 0\<close> (the sort is stable), then the
  selection is maintained against the previous list.
\<close>

definition orderKey :: "task \<Rightarrow> int" where
  "orderKey t = (case task_order t of None \<Rightarrow> 0 | Some k \<Rightarrow> k)"

definition updateTasks :: "task list \<Rightarrow> task_manager \<Rightarrow> task_manager" where
  "updateTasks newTasks m =
     maintainSelection (tasks m) (m\<lparr>tasks := sort_key orderKey newTasks\<rparr>)"

section \<open>Sample data\<close>

definition sampleItem :: "string \<Rightarrow> int \<Rightarrow> checklist_item" where
  "sampleItem i k =
     \<lparr>item_id = i, item_text = i, item_done = False, item_completed = None,
      item_group = None, item_order = Some k\<rparr>"

definition sampleServer :: "checklist_item list \<Rightarrow> server" where
  "sampleServer xs =
     \<lparr>lastData = Some \<lparr>items = xs, ts = 100, data_selectedTaskId = None\<rparr>,
      selectedTaskId = None, saveTimeout = None, broadcastInterval = None,
      clients = [\<lparr>cid = 1, readyState = OPEN, sendThrows = False\<rparr>],
      clock = 5000, tasksFile = Json xs (Some 100) None, fsWritable = True,
      console = [], wire = [], diskWrites = []\<rparr>"

definition sampleTask :: "string \<Rightarrow> int \<Rightarrow> task" where
  "sampleTask i k = \<lparr>task_id = i, task_text = i, task_completed = False, task_order = Some k\<rparr>"

section \<open>The completion flags of an item\<close>

text \<open>
  \<open>flagsAgree\<close>: the item reports \<open>completed\<close> equal to \<open>done\<close>. \<open>noStaleCompleted\<close>: the
  item is not stored with \<open>done = false\<close> next to \<open>completed = true\<close>.
\<close>

definition flagsAgree :: "checklist_item \<Rightarrow> bool" where
  "flagsAgree item = (item_completed item = Some (item_done item))"

definition noStaleCompleted :: "checklist_item \<Rightarrow> bool" where
  "noStaleCompleted item = (item_done item \<or> item_completed item \<noteq> Some True)"

definition staleItem :: "string \<Rightarrow> int \<Rightarrow> checklist_item" where
  "staleItem i k = (sampleItem i k)\<lparr>item_completed := Some True\<rparr>"

section \<open>The reconnect schedule of the data source\<close>

text \<open>
  What holds of a started data source as long as its socket never opens: at most five
  reconnects were scheduled, the \<open>k\<close>-th after \<open>1000 * 2 ^ k\<close> ms, and every socket but
  the first was constructed by a reconnect timer.
\<close>

definition backoffInv :: "data_source \<Rightarrow> bool" where
  "backoffInv a =
     (reconnectAttempts a \<le> 5 \<and> maxReconnectAttempts a = 5 \<and>
      delays a = map (\<lambda>k. 1000 * 2 ^ k) [0..<reconnectAttempts a] \<and>
      connects a + length (armedReconnects a) \<le> reconnectAttempts a + 1 \<and>
      length (armedReconnects a) \<le> 1 \<and>
      (socket a \<noteq> None \<longrightarrow> armedReconnects a = []))"

text \<open>The data source has given up the push channel: no socket, no armed reconnect.\<close>

definition givenUp :: "data_source \<Rightarrow> bool" where
  "givenUp a = (socket a = None \<and> armedReconnects a = [])"

text \<open>
  The data source after six failed cycles from \<open>start\<close> (shown below): five reconnects
  were scheduled and tried, and polling has taken over.
\<close>

definition exhausted :: data_source where
  "exhausted =
     \<lparr>socket = None, pollInterval = True, reconnectTimeout = Some 16000, isConnected = False,
      currentSource = POLL, reconnectAttempts = 5, maxReconnectAttempts = 5,
      constructible = True, armedReconnects = [], fallbackArmed = True,
      delays = [1000, 2000, 4000, 8000, 16000], connects = 6, polls = 1,
      statuses = [(False, POLL)]\<rparr>"

section \<open>Saving: what is in memory and what is on disk\<close>

text \<open>
  \<open>immediate\<close> tells the mutations that call \<open>saveTasksFile\<close> themselves from those of
  the reorder family, which call \<open>debouncedSave\<close>. \<open>memory\<close> is the part of the state
  that lives in the process (with the clock); \<open>diskFailing\<close> and \<open>diskWritable\<close> set whether
  the next write to the file fails.
\<close>

fun immediate :: "mutation \<Rightarrow> bool" where
  "immediate (MoveUp taskId) = False"
| "immediate (MoveDown taskId) = False"
| "immediate (MoveToPosition taskId targetPosition) = False"
| "immediate m = True"

definition memory ::
  "server \<Rightarrow> checklist_data option \<times> string option \<times> nat option \<times> client list \<times>
     (nat \<times> frame) list \<times> nat" where
  "memory s = (lastData s, selectedTaskId s, saveTimeout s, clients s, wire s, clock s)"

definition diskFailing :: "server \<Rightarrow> server" where
  "diskFailing s = s\<lparr>fsWritable := False\<rparr>"

definition diskWritable :: "server \<Rightarrow> server" where
  "diskWritable s = s\<lparr>fsWritable := True\<rparr>"

section \<open>Facts about the array operations\<close>

lemma findIndex_Some:
  "findIndex P xs = Some i \<Longrightarrow> i < length xs \<and> P (xs ! i) \<and> (\<forall>j<i. \<not> P (xs ! j))"
proof (induction xs arbitrary: i)
  case Nil
  then show ?case by simp
next
  case (Cons x xs)
  show ?case
  proof (cases "P x")
    case True
    with Cons.prems show ?thesis by simp
  next
    case False
    with Cons.prems obtain k where k: "findIndex P xs = Some k" "i = Suc k"
      by auto
    from Cons.IH [OF k(1)] False k(2) show ?thesis
      by (auto simp: less_Suc_eq_0_disj)
  qed
qed

lemma findIndex_None: "findIndex P xs = None \<longleftrightarrow> (\<forall>x\<in>set xs. \<not> P x)"
  by (induction xs) auto

lemma findIndex_absent:
  "taskId \<notin> item_id ` set xs \<Longrightarrow> findIndex (hasId taskId) xs = None"
  by (auto simp: findIndex_None hasId_def)

lemma findIndex_present:
  "taskId \<in> item_id ` set xs \<Longrightarrow> \<exists>i. findIndex (hasId taskId) xs = Some i"
  using findIndex_None [of "hasId taskId" xs] by (cases "findIndex (hasId taskId) xs") (auto simp: hasId_def)

lemma findIndex_first:
  assumes "x \<in> set xs" "P x"
  shows "\<exists>i. findIndex P xs = Some i \<and> i < length xs \<and> P (xs ! i)"
proof (cases "findIndex P xs")
  case None
  with assms show ?thesis by (simp add: findIndex_None)
next
  case (Some i)
  from findIndex_Some [OF this] Some show ?thesis by simp
qed

lemma length_renumber_from [simp]: "length (renumber_from k xs) = length xs"
  by (induction xs arbitrary: k) auto

lemma order_renumber_from:
  "map item_order (renumber_from k xs) = map (\<lambda>i. Some (int i)) [k..<k + length xs]"
proof (induction xs arbitrary: k)
  case Nil
  then show ?case by simp
next
  case (Cons x xs)
  have "k < k + length (x # xs)" by simp
  from upt_conv_Cons [OF this]
  have "[k..<k + length (x # xs)] = k # [Suc k..<Suc k + length xs]"
    by simp
  with Cons.IH [of "Suc k"] show ?case by simp
qed

lemma length_renumber [simp]: "length (renumber xs) = length xs"
  by (simp add: renumber_def)

lemma positional_renumber: "positional (renumber xs)"
  using order_renumber_from [of 0 xs] by (simp add: positional_def renumber_def)

lemma positional_nth: "positional xs \<longleftrightarrow> (\<forall>i<length xs. item_order (xs ! i) = Some (int i))"
  unfolding positional_def list_eq_iff_nth_eq by simp

lemma length_swapItems [simp]: "length (swapItems i j xs) = length xs"
  by (simp add: swapItems_def Let_def)

lemma nth_swapItems:
  assumes "i < length xs" "j < length xs" "i \<noteq> j" "k < length xs"
  shows "swapItems i j xs ! k =
           (if k = i then (xs ! j)\<lparr>item_order := Some (int i)\<rparr>
            else if k = j then (xs ! i)\<lparr>item_order := Some (int j)\<rparr>
            else xs ! k)"
  using assms by (simp add: swapItems_def Let_def nth_list_update)

lemma positional_swapItems:
  assumes "positional xs" "i < length xs" "j < length xs" "i \<noteq> j"
  shows "positional (swapItems i j xs)"
proof -
  have "item_order (swapItems i j xs ! k) = Some (int k)" if "k < length xs" for k
    using assms that by (simp add: nth_swapItems positional_nth)
  then show ?thesis by (simp add: positional_nth)
qed

lemma positional_update:
  assumes "positional xs" "item_order y = item_order (xs ! i)"
  shows "positional (xs[i := y])"
proof -
  have "item_order (xs[i := y] ! k) = Some (int k)" if "k < length xs" for k
    using assms that by (cases "k = i") (simp_all add: positional_nth)
  then show ?thesis by (simp add: positional_nth)
qed

lemma positional_append:
  assumes "positional xs" "item_order y = Some (int (length xs))"
  shows "positional (xs @ [y])"
  using assms unfolding positional_nth
  by (auto simp: nth_append less_Suc_eq)

lemma positional_map:
  assumes "positional xs" "\<And>x. item_order (f x) = item_order x"
  shows "positional (map f xs)"
  using assms unfolding positional_nth by auto


lemma positional_dense: "positional xs \<Longrightarrow> dense xs"
  by (simp add: positional_def dense_def)

lemma lastData_fanOut [simp]: "lastData (fanOut m f s) = lastData s"
  by (simp add: fanOut_def)

lemma lastData_broadcastToAll [simp]: "lastData (broadcastToAll d s) = lastData s"
  by (simp add: broadcastToAll_def)

lemma lastData_broadcastLastData [simp]: "lastData (broadcastLastData s) = lastData s"
  by (simp add: broadcastLastData_def split: option.split)

lemma lastData_debouncedSave [simp]: "lastData (debouncedSave s) = lastData s"
  by (simp add: debouncedSave_def)

lemma lastData_saveTasksFile:
  "lastData (snd (saveTasksFile s)) =
     map_option (\<lambda>d. d\<lparr>ts := int (clock s div 1000)\<rparr>) (lastData s)"
  by (simp add: saveTasksFile_def Let_def split: option.split)

lemma storeItems_broadcastLastData [simp]: "storeItems (broadcastLastData s) = storeItems s"
  by (simp add: storeItems_def)

lemma storeItems_debouncedSave [simp]: "storeItems (debouncedSave s) = storeItems s"
  by (simp add: storeItems_def)

lemma storeItems_saveTasksFile [simp]: "storeItems (snd (saveTasksFile s)) = storeItems s"
  by (simp add: storeItems_def lastData_saveTasksFile split: option.split)

lemma storeItems_update [simp]:
  "storeItems (s\<lparr>lastData := Some (d\<lparr>items := xs\<rparr>)\<rparr>) = xs"
  by (simp add: storeItems_def)

lemma loaded_saveTasksFile [simp]:
  "(lastData (snd (saveTasksFile s)) = None) = (lastData s = None)"
  by (simp add: lastData_saveTasksFile)

text \<open>Every mutation keeps a loaded store loaded.\<close>

lemma mutate_loaded: "(lastData (snd (mutate m s)) = None) = (lastData s = None)"
  by (cases m)
     (simp_all add: toggleTaskById_def resetAllTasks_def addTask_def deleteTask_def editTask_def
        moveTaskUp_def moveTaskDown_def moveTaskToPosition_def Let_def lastData_saveTasksFile
        split: option.split)

lemma mutate_positional:
  assumes "positional (storeItems s)"
  shows "positional (storeItems (snd (mutate m s)))"
proof (cases "lastData s")
  case None
  then have "snd (mutate m s) = s"
    by (cases m)
       (simp_all add: toggleTaskById_def resetAllTasks_def addTask_def deleteTask_def
          editTask_def moveTaskUp_def moveTaskDown_def moveTaskToPosition_def)
  with assms show ?thesis by simp
next
  case (Some d)
  with assms have pos: "positional (items d)" by (simp add: storeItems_def)
  show ?thesis
  proof (cases m)
    case (Toggle taskId)
    show ?thesis
    proof (cases "findIndex (hasId taskId) (items d)")
      case None
      with Some Toggle assms show ?thesis by (simp add: toggleTaskById_def)
    next
      case idx: (Some i)
      with Some Toggle pos show ?thesis
        by (simp add: toggleTaskById_def Let_def positional_update)
    qed
  next
    case Reset
    with Some pos show ?thesis
      by (simp add: resetAllTasks_def Let_def positional_map)
  next
    case (Add newId taskText)
    with Some pos show ?thesis
      by (simp add: addTask_def Let_def positional_append)
  next
    case (Delete taskId)
    with Some assms show ?thesis
      by (cases "findIndex (hasId taskId) (items d)")
         (simp_all add: deleteTask_def Let_def positional_renumber)
  next
    case (Edit taskId newText)
    with Some assms pos show ?thesis
      by (cases "findIndex (hasId taskId) (items d)")
         (simp_all add: editTask_def Let_def positional_update)
  next
    case (MoveUp taskId)
    show ?thesis
    proof (cases "findIndex (hasId taskId) (items d)")
      case None
      with Some MoveUp assms show ?thesis by (simp add: moveTaskUp_def)
    next
      case idx: (Some i)
      from findIndex_Some [OF this] have "i < length (items d)" by simp
      with pos have "positional (moveUpItems i (items d))"
        by (simp add: moveUpItems_def positional_renumber positional_swapItems)
      with Some idx MoveUp assms show ?thesis
        by (simp add: moveTaskUp_def Let_def)
    qed
  next
    case (MoveDown taskId)
    show ?thesis
    proof (cases "findIndex (hasId taskId) (items d)")
      case None
      with Some MoveDown assms show ?thesis by (simp add: moveTaskDown_def)
    next
      case idx: (Some i)
      from findIndex_Some [OF this] have "i < length (items d)" by simp
      with pos have "positional (moveDownItems i (items d))"
        by (auto simp: moveDownItems_def positional_renumber intro!: positional_swapItems)
      with Some idx MoveDown assms show ?thesis
        by (simp add: moveTaskDown_def Let_def)
    qed
  next
    case (MoveToPosition taskId targetPosition)
    with Some assms show ?thesis
      by (cases "findIndex (hasId taskId) (items d)")
         (simp_all add: moveTaskToPosition_def Let_def positional_renumber)
  qed
qed

lemma mutateAll_loaded: "(lastData (mutateAll ms s) = None) = (lastData s = None)"
  unfolding mutateAll_def
  by (induction ms arbitrary: s) (simp_all add: mutate_loaded)

lemma mutateAll_positional:
  "positional (storeItems s) \<Longrightarrow> positional (storeItems (mutateAll ms s))"
  unfolding mutateAll_def
  by (induction ms arbitrary: s) (simp_all add: mutate_positional)

text \<open>Properties of items that do not look at \<open>order\<close> survive every reordering.\<close>

lemma list_all_renumber_from:
  assumes "\<And>x v. P (x\<lparr>item_order := v\<rparr>) = P x"
  shows "list_all P (renumber_from k xs) = list_all P xs"
  by (induction xs arbitrary: k) (simp_all add: assms)

lemma list_all_renumber:
  assumes "\<And>x v. P (x\<lparr>item_order := v\<rparr>) = P x"
  shows "list_all P (renumber xs) = list_all P xs"
  unfolding renumber_def by (rule list_all_renumber_from [OF assms])

lemma list_all_update:
  assumes "list_all P xs" "P y"
  shows "list_all P (xs[i := y])"
  using assms set_update_subset_insert [of xs i y] by (auto simp: list_all_iff)

lemma list_all_splice_remove: "list_all P xs \<Longrightarrow> list_all P (splice_remove i xs)"
  unfolding splice_remove_def list_all_iff
  by (auto dest: in_set_takeD in_set_dropD)

lemma list_all_splice_insert: "list_all P xs \<Longrightarrow> P y \<Longrightarrow> list_all P (splice_insert i y xs)"
  unfolding splice_insert_def list_all_iff
  by (auto dest: in_set_takeD in_set_dropD)

lemma list_all_nth: "list_all P xs \<Longrightarrow> i < length xs \<Longrightarrow> P (xs ! i)"
  by (simp add: list_all_iff)

lemma list_all_reorder_at:
  assumes "\<And>x v. P (x\<lparr>item_order := v\<rparr>) = P x"
    and "list_all P ys" "k < length ys"
  shows "list_all P (ys[k := (ys ! k)\<lparr>item_order := v\<rparr>])"
proof -
  from assms(2,3) have "P (ys ! k)" by (rule list_all_nth)
  then have "P ((ys ! k)\<lparr>item_order := v\<rparr>)" by (simp add: assms(1))
  with assms(2) show ?thesis by (rule list_all_update)
qed

lemma list_all_swapItems:
  assumes "\<And>x v. P (x\<lparr>item_order := v\<rparr>) = P x"
    and "list_all P xs" "i < length xs" "j < length xs"
  shows "list_all P (swapItems i j xs)"
proof -
  define ys where "ys = (xs[i := xs ! j])[j := xs ! i]"
  define zs where "zs = ys[i := (ys ! i)\<lparr>item_order := Some (int i)\<rparr>]"
  have "P (xs ! i)" "P (xs ! j)"
    using assms(2-4) by (simp_all add: list_all_nth)
  with assms(2) have ys: "list_all P ys"
    unfolding ys_def by (intro list_all_update)
  have leni: "i < length ys" and lenj: "j < length ys"
    using assms(3,4) by (simp_all add: ys_def)
  from list_all_reorder_at [OF assms(1) ys leni] have zs: "list_all P zs"
    by (simp add: zs_def)
  from lenj have "j < length zs" by (simp add: zs_def)
  from list_all_reorder_at [OF assms(1) zs this]
  have "list_all P (zs[j := (zs ! j)\<lparr>item_order := Some (int j)\<rparr>])" .
  then show ?thesis by (simp add: swapItems_def Let_def ys_def zs_def)
qed

lemma list_all_moveUpItems:
  assumes "\<And>x v. P (x\<lparr>item_order := v\<rparr>) = P x"
    and "list_all P xs" "i < length xs"
  shows "list_all P (moveUpItems i xs)"
proof (cases "i = 0")
  case True
  from assms(2,3) have "P (xs ! i)" by (rule list_all_nth)
  with True assms(1,2) show ?thesis
    by (simp add: moveUpItems_def list_all_renumber list_all_splice_remove)
next
  case False
  with assms(3) have "i - 1 < length xs" by arith
  with assms False show ?thesis
    by (simp add: moveUpItems_def list_all_swapItems)
qed

lemma list_all_moveDownItems:
  assumes "\<And>x v. P (x\<lparr>item_order := v\<rparr>) = P x"
    and "list_all P xs" "i < length xs"
  shows "list_all P (moveDownItems i xs)"
proof (cases "i = length xs - 1")
  case True
  from assms(2,3) have "P (xs ! i)" by (rule list_all_nth)
  with True assms(1,2) show ?thesis
    by (simp add: moveDownItems_def list_all_renumber list_all_splice_remove)
next
  case False
  with assms(3) have "i + 1 < length xs" by arith
  with assms False show ?thesis
    by (simp add: moveDownItems_def list_all_swapItems)
qed

lemma noStale_order [simp]: "noStaleCompleted (x\<lparr>item_order := v\<rparr>) = noStaleCompleted x"
  by (simp add: noStaleCompleted_def)

lemma mutate_noStale:
  assumes "list_all noStaleCompleted (storeItems s)"
  shows "list_all noStaleCompleted (storeItems (snd (mutate m s)))"
proof (cases "lastData s")
  case None
  then have "snd (mutate m s) = s"
    by (cases m)
       (simp_all add: toggleTaskById_def resetAllTasks_def addTask_def deleteTask_def
          editTask_def moveTaskUp_def moveTaskDown_def moveTaskToPosition_def)
  with assms show ?thesis by simp
next
  case (Some d)
  with assms have all: "list_all noStaleCompleted (items d)" by (simp add: storeItems_def)
  show ?thesis
  proof (cases m)
    case (Toggle taskId)
    with Some assms all show ?thesis
      by (cases "findIndex (hasId taskId) (items d)")
         (simp_all add: toggleTaskById_def Let_def list_all_update noStaleCompleted_def)
  next
    case Reset
    with Some show ?thesis
      by (simp add: resetAllTasks_def Let_def list_all_iff noStaleCompleted_def)
  next
    case (Add newId taskText)
    with Some all show ?thesis
      by (simp add: addTask_def Let_def noStaleCompleted_def)
  next
    case (Delete taskId)
    with Some assms all show ?thesis
      by (cases "findIndex (hasId taskId) (items d)")
         (simp_all add: deleteTask_def Let_def list_all_renumber list_all_splice_remove)
  next
    case (Edit taskId newText)
    show ?thesis
    proof (cases "findIndex (hasId taskId) (items d)")
      case None
      with Some Edit assms show ?thesis by (simp add: editTask_def)
    next
      case idx: (Some i)
      from findIndex_Some [OF this] all have "noStaleCompleted (items d ! i)"
        by (simp add: list_all_nth)
      then have "noStaleCompleted ((items d ! i)\<lparr>item_text := newText\<rparr>)"
        by (simp add: noStaleCompleted_def)
      with Some Edit idx all show ?thesis
        by (simp add: editTask_def Let_def list_all_update)
    qed
  next
    case (MoveUp taskId)
    show ?thesis
    proof (cases "findIndex (hasId taskId) (items d)")
      case None
      with Some MoveUp assms show ?thesis by (simp add: moveTaskUp_def)
    next
      case idx: (Some i)
      from findIndex_Some [OF this] have "i < length (items d)" by simp
      with all have "list_all noStaleCompleted (moveUpItems i (items d))"
        by (simp add: list_all_moveUpItems)
      with Some idx MoveUp assms show ?thesis
        by (simp add: moveTaskUp_def Let_def)
    qed
  next
    case (MoveDown taskId)
    show ?thesis
    proof (cases "findIndex (hasId taskId) (items d)")
      case None
      with Some MoveDown assms show ?thesis by (simp add: moveTaskDown_def)
    next
      case idx: (Some i)
      from findIndex_Some [OF this] have "i < length (items d)" by simp
      with all have "list_all noStaleCompleted (moveDownItems i (items d))"
        by (simp add: list_all_moveDownItems)
      with Some idx MoveDown assms show ?thesis
        by (simp add: moveTaskDown_def Let_def)
    qed
  next
    case (MoveToPosition taskId targetPosition)
    show ?thesis
    proof (cases "findIndex (hasId taskId) (items d)")
      case None
      with Some MoveToPosition assms show ?thesis by (simp add: moveTaskToPosition_def)
    next
      case idx: (Some i)
      from findIndex_Some [OF this] all have "noStaleCompleted (items d ! i)"
        by (simp add: list_all_nth)
      with all have "list_all noStaleCompleted
          (renumber (splice_insert (nat \<lfloor>clampedPosition targetPosition (items d)\<rfloor>) (items d ! i)
             (splice_remove i (items d))))"
        by (simp add: list_all_renumber list_all_splice_insert list_all_splice_remove)
      with Some idx MoveToPosition assms show ?thesis
        by (simp add: moveTaskToPosition_def Let_def)
    qed
  qed
qed

lemma get_tasks_agree:
  assumes "lastData s = Some d" "list_all noStaleCompleted (items d)"
  shows "\<exists>out. fst (get_tasks s) = Response 200 (Tasks out) \<and> list_all flagsAgree out \<and>
           map item_id out = map item_id (items d) \<and> map item_done out = map item_done (items d)"
proof -
  have "flagsAgree (item\<lparr>item_completed := Some (completedFlag item)\<rparr>)"
    if "noStaleCompleted item" for item
    using that by (cases "item_completed item") (auto simp: flagsAgree_def completedFlag_def noStaleCompleted_def)
  with assms show ?thesis
    by (simp add: get_tasks_def list_all_iff comp_def)
qed

section \<open>What the operations leave alone\<close>

lemma wire_saveTasksFile [simp]: "wire (snd (saveTasksFile s)) = wire s"
  by (simp add: saveTasksFile_def Let_def split: option.split)

lemma wire_saveTimerFired [simp]: "wire (saveTimerFired s) = wire s"
  by (simp add: saveTimerFired_def)

lemma wire_elapse [simp]: "wire (elapse dt s) = wire s"
  by (simp add: elapse_def split: option.split)

lemma interval_fanOut [simp]: "broadcastInterval (fanOut m f s) = broadcastInterval s"
  by (simp add: fanOut_def)

lemma interval_broadcastToAll [simp]: "broadcastInterval (broadcastToAll d s) = broadcastInterval s"
  by (simp add: broadcastToAll_def)

lemma interval_broadcastLastData [simp]:
  "broadcastInterval (broadcastLastData s) = broadcastInterval s"
  by (simp add: broadcastLastData_def split: option.split)

lemma interval_broadcastSelectionUpdate [simp]:
  "broadcastInterval (broadcastSelectionUpdate s) = broadcastInterval s"
  by (simp add: broadcastSelectionUpdate_def split: option.split)

lemma interval_saveTasksFile [simp]:
  "broadcastInterval (snd (saveTasksFile s)) = broadcastInterval s"
  by (simp add: saveTasksFile_def Let_def split: option.split)

lemma interval_debouncedSave [simp]: "broadcastInterval (debouncedSave s) = broadcastInterval s"
  by (simp add: debouncedSave_def)

lemma interval_mutate [simp]: "broadcastInterval (snd (mutate m s)) = broadcastInterval s"
  by (cases m)
     (simp_all add: toggleTaskById_def resetAllTasks_def addTask_def deleteTask_def editTask_def
        moveTaskUp_def moveTaskDown_def moveTaskToPosition_def Let_def split: option.split)

lemmas interval_methods [simp] =
  interval_mutate [of "Toggle taskId", simplified]
  interval_mutate [of Reset, simplified]
  interval_mutate [of "Add newId taskText", simplified]
  interval_mutate [of "Delete taskId", simplified]
  interval_mutate [of "Edit taskId newText", simplified]
  interval_mutate [of "MoveUp taskId", simplified]
  interval_mutate [of "MoveDown taskId", simplified]
  interval_mutate [of "MoveToPosition taskId targetPosition", simplified]
  for taskId newId taskText newText targetPosition

lemma interval_elapse [simp]: "broadcastInterval (elapse dt s) = broadcastInterval s"
  by (simp add: elapse_def saveTimerFired_def split: option.split)

lemma interval_loadAndBroadcast [simp]:
  "broadcastInterval (loadAndBroadcast s) = broadcastInterval s"
  by (simp add: loadAndBroadcast_def loadTasksFile_def split: file_content.split)

lemma interval_sendToClient [simp]:
  "broadcastInterval (sendToClient c d s) = broadcastInterval s"
  by (simp add: sendToClient_def)

lemma snd_get_tasks [simp]: "snd (get_tasks s) = s"
  by (simp add: get_tasks_def split: option.split)

lemma interval_handler [simp]: "broadcastInterval (snd (handler req s)) = broadcastInterval s"
  by (cases req)
     (simp_all add: get_tasks_def post_toggle_next_def post_toggle_def post_reset_def
        post_add_def post_delete_def post_edit_def post_select_def post_move_up_def
        post_move_down_def post_move_to_position_def Let_def split_def
        split: option.split)

lemma interval_step [simp]: "broadcastInterval (step e s) = broadcastInterval s"
  by (cases e) (simp_all add: route_def Let_def split: option.split)

lemma interval_run [simp]: "broadcastInterval (run es s) = broadcastInterval s"
  unfolding run_def by (induction es arbitrary: s) simp_all

lemma interval_boot [simp]: "broadcastInterval (boot file writable now) = None"
  by (simp add: boot_def)


lemma handler_changes_on_success:
  "snd (handler req s) = s \<or> (\<exists>b. fst (handler req s) = Response 200 b)"
  by (cases req)
     (auto simp: get_tasks_def post_toggle_next_def post_toggle_def post_reset_def
        post_add_def post_delete_def post_edit_def post_select_def post_move_up_def
        post_move_down_def post_move_to_position_def Let_def split_def noData_def
        moveTaskUp_def moveTaskDown_def moveTaskToPosition_def
        split: option.split)

lemma route_changes_on_success:
  "snd (route h req s) = s \<or> (req \<noteq> GetTasks \<and> (\<exists>b. fst (route h req s) = Response 200 b))"
  using handler_changes_on_success [of req s]
  by (auto simp: route_def split: option.split)

section \<open>Facts about saving\<close>

text \<open>
  What a mutation leaves in memory does not depend on the disk: two states with the same
  \<open>memory\<close> are taken to states with the same \<open>memory\<close>.
\<close>

lemma memory_eq:
  "memory s = memory t \<longleftrightarrow>
     lastData s = lastData t \<and> selectedTaskId s = selectedTaskId t \<and>
     saveTimeout s = saveTimeout t \<and> clients s = clients t \<and> wire s = wire t \<and>
     clock s = clock t"
  by (auto simp: memory_def)

lemma memory_saveTasksFile:
  "memory s = memory t \<Longrightarrow> memory (snd (saveTasksFile s)) = memory (snd (saveTasksFile t))"
  by (simp add: memory_eq saveTasksFile_def Let_def split: option.split)

lemma memory_broadcastLastData:
  "memory s = memory t \<Longrightarrow> memory (broadcastLastData s) = memory (broadcastLastData t)"
  by (simp add: memory_eq broadcastLastData_def broadcastToAll_def fanOut_def split: option.split)

lemma memory_debouncedSave:
  "memory s = memory t \<Longrightarrow> memory (debouncedSave s) = memory (debouncedSave t)"
  by (simp add: memory_eq debouncedSave_def)

lemma memory_lastData_update:
  "memory s = memory t \<Longrightarrow> memory (s\<lparr>lastData := x\<rparr>) = memory (t\<lparr>lastData := x\<rparr>)"
  by (simp add: memory_eq)

lemmas memory_commit =
  memory_broadcastLastData [OF memory_saveTasksFile [OF memory_lastData_update]]
  memory_broadcastLastData [OF memory_debouncedSave [OF memory_lastData_update]]

lemma mutate_memory:
  assumes "memory s = memory t"
  shows "fst (mutate m s) = fst (mutate m t) \<and>
         memory (snd (mutate m s)) = memory (snd (mutate m t))"
proof -
  from assms have l: "lastData s = lastData t" by (simp add: memory_eq)
  show ?thesis
  proof (cases "lastData t")
    case None
    with l assms show ?thesis
      by (cases m)
         (simp_all add: toggleTaskById_def resetAllTasks_def addTask_def deleteTask_def
            editTask_def moveTaskUp_def moveTaskDown_def moveTaskToPosition_def)
  next
    case (Some d)
    with l assms memory_commit [OF assms] show ?thesis
      by (cases m)
         (simp_all add: toggleTaskById_def resetAllTasks_def addTask_def deleteTask_def
            editTask_def moveTaskUp_def moveTaskDown_def moveTaskToPosition_def Let_def
            split: option.split)
  qed
qed


lemma disk_fanOut [simp]:
  "tasksFile (fanOut msg f s) = tasksFile s" "diskWrites (fanOut msg f s) = diskWrites s"
  "fsWritable (fanOut msg f s) = fsWritable s" "clock (fanOut msg f s) = clock s"
  by (simp_all add: fanOut_def)

lemma disk_broadcastLastData [simp]:
  "tasksFile (broadcastLastData s) = tasksFile s"
  "diskWrites (broadcastLastData s) = diskWrites s"
  "fsWritable (broadcastLastData s) = fsWritable s"
  "clock (broadcastLastData s) = clock s"
  by (simp_all add: broadcastLastData_def broadcastToAll_def split: option.split)

lemma console_broadcastLastData: "set (console s) \<subseteq> set (console (broadcastLastData s))"
  by (auto simp: broadcastLastData_def broadcastToAll_def fanOut_def split: option.split)

lemma disk_debouncedSave [simp]:
  "tasksFile (debouncedSave s) = tasksFile s" "diskWrites (debouncedSave s) = diskWrites s"
  "fsWritable (debouncedSave s) = fsWritable s" "clock (debouncedSave s) = clock s"
  by (simp_all add: debouncedSave_def)

lemma saveTasksFile_failing:
  assumes "\<not> fsWritable s"
  shows "tasksFile (snd (saveTasksFile s)) = tasksFile s"
    and "diskWrites (snd (saveTasksFile s)) = diskWrites s"
    and "lastData s \<noteq> None \<Longrightarrow>
           console (snd (saveTasksFile s)) = console s @ [''Failed to save tasks file'']"
    and "\<not> fst (saveTasksFile s)"
  using assms by (auto simp: saveTasksFile_def Let_def split: option.split)

lemma env_saveTasksFile [simp]:
  "fsWritable (snd (saveTasksFile s)) = fsWritable s" "clock (snd (saveTasksFile s)) = clock s"
  by (simp_all add: saveTasksFile_def Let_def split: option.split)

lemma saveTasksFile_writable:
  assumes "fsWritable s" "lastData s = Some d"
  shows "saveTasksFile s =
           (True, s\<lparr>lastData := Some (d\<lparr>ts := int (clock s div 1000)\<rparr>),
                    tasksFile := Json (items d) (Some (int (clock s div 1000))) (data_selectedTaskId d),
                    diskWrites := diskWrites s @ [d\<lparr>ts := int (clock s div 1000)\<rparr>]\<rparr>)"
  using assms by (simp add: saveTasksFile_def Let_def)

lemma env_mutate [simp]:
  "fsWritable (snd (mutate m s)) = fsWritable s" "clock (snd (mutate m s)) = clock s"
  by (cases m;
      simp add: toggleTaskById_def resetAllTasks_def addTask_def deleteTask_def editTask_def
        moveTaskUp_def moveTaskDown_def moveTaskToPosition_def Let_def split: option.split)+

lemma mutate_failing_disk:
  assumes "\<not> fsWritable s"
  shows "tasksFile (snd (mutate m s)) = tasksFile s \<and> diskWrites (snd (mutate m s)) = diskWrites s"
  using assms
  by (cases m)
     (simp_all add: toggleTaskById_def resetAllTasks_def addTask_def deleteTask_def editTask_def
        moveTaskUp_def moveTaskDown_def moveTaskToPosition_def Let_def saveTasksFile_failing
        split: option.split)

lemma mutate_failing_logged:
  assumes "\<not> fsWritable s" "immediate m" "fst (mutate m s)"
  shows "''Failed to save tasks file'' \<in> set (console (snd (mutate m s)))"
proof -
  have "''Failed to save tasks file'' \<in> set (console (broadcastLastData (snd (saveTasksFile s1))))"
    if "\<not> fsWritable s1" "lastData s1 \<noteq> None" for s1
    using that console_broadcastLastData [of "snd (saveTasksFile s1)"]
    by (auto simp: saveTasksFile_failing(3))
  note logged = this
  from assms show ?thesis
    by (cases m)
       (auto simp: toggleTaskById_def resetAllTasks_def addTask_def deleteTask_def editTask_def
          Let_def split: option.splits intro!: logged)
qed


lemma wire_broadcastLastData:
  assumes "lastData s \<noteq> None"
  shows "wire (broadcastLastData s) =
           wire s @ map (\<lambda>c. (cid c, TasksUpdated (storeItems s) (orNull (selectedTaskId s))))
                      (filter sendable (clients s))"
  using assms
  by (auto simp: broadcastLastData_def broadcastToAll_def fanOut_def storeItems_def)

lemma mutate_failing_broadcast:
  assumes "\<not> fsWritable s" "immediate m" "fst (mutate m s)"
  shows "wire (snd (mutate m s)) =
           wire s @ map (\<lambda>c. (cid c, TasksUpdated (storeItems (snd (mutate m s)))
                                      (orNull (selectedTaskId s))))
                      (filter sendable (clients s))"
proof -
  have sel: "selectedTaskId (snd (saveTasksFile s1)) = selectedTaskId s1"
    and cl: "clients (snd (saveTasksFile s1)) = clients s1" for s1
    by (simp_all add: saveTasksFile_def Let_def split: option.split)
  have items: "storeItems (broadcastLastData s1) = storeItems s1"
    and items': "storeItems (snd (saveTasksFile s1)) = storeItems s1" for s1
    by (simp_all add: storeItems_def lastData_saveTasksFile split: option.split)
  have "wire (broadcastLastData (snd (saveTasksFile s1))) =
          wire s1 @ map (\<lambda>c. (cid c, TasksUpdated
                                    (storeItems (broadcastLastData (snd (saveTasksFile s1))))
                                    (orNull (selectedTaskId s1))))
                     (filter sendable (clients s1))"
    if "lastData s1 \<noteq> None" for s1
    using that wire_broadcastLastData [of "snd (saveTasksFile s1)"]
    by (simp add: sel cl items items')
  note sent = this
  from assms(2,3) show ?thesis
    by (cases m)
       (auto simp: toggleTaskById_def resetAllTasks_def addTask_def deleteTask_def editTask_def
          Let_def sent split: option.splits)
qed

section \<open>The selected task after a delete (C1)\<close>

text \<open>
  The route \<open>/tasks/select\<close> accepts an id only if a task of the store has it.
\<close>

lemma find_None_iff: "List.find P xs = None \<longleftrightarrow> (\<forall>x\<in>set xs. \<not> P x)"
  by (induction xs) auto

lemma select_validates:
  assumes "fst (post_select (Some taskId) s) = Response 200 b" "taskId \<noteq> []"
  shows "taskId \<in> item_id ` set (storeItems s) \<and>
         selectedTaskId (snd (post_select (Some taskId) s)) = Some taskId"
proof (cases "lastData s")
  case None
  with assms show ?thesis by (simp add: post_select_def noData_def)
next
  case (Some d)
  show ?thesis
  proof (cases "List.find (\<lambda>item. Some (item_id item) = Some taskId) (items d)")
    case None
    with Some assms show ?thesis by (simp add: post_select_def falsy_def)
  next
    case found: (Some item)
    then have "\<not> (\<forall>x\<in>set (items d). item_id x \<noteq> taskId)"
      using find_None_iff [of "\<lambda>item. Some (item_id item) = Some taskId" "items d"] by simp
    then have "taskId \<in> item_id ` set (items d)" by auto
    moreover have "selectedTaskId (broadcastSelectionUpdate s') = selectedTaskId s'" for s'
      by (simp add: broadcastSelectionUpdate_def fanOut_def split: option.split)
    ultimately show ?thesis
      using Some found assms(2)
      by (simp add: post_select_def falsy_def orNull_def storeItems_def Let_def)
  qed
qed

text \<open>
  C1 asks that a snapshot with a \<open>selectedTaskId\<close> names a task of that snapshot, and
  that deleting the selected task clears the selection. The route \<open>/tasks/select\<close>
  refuses an id that no task has, but \<open>deleteTask\<close> leaves \<open>selectedTaskId\<close> alone:
  with the tasks \<open>a\<close> and \<open>b\<close> and one open socket, selecting \<open>a\<close> and then deleting
  \<open>a\<close> leaves the selection at \<open>a\<close>, and the frame broadcast by the delete carries the
  one remaining task \<open>b\<close> together with \<open>selectedTaskId = a\<close>.
\<close>

theorem selection_dangles_after_delete:
  "selectedTaskId (run [Request (Some ''Bearer devtoken'') (PostSelect (Some ''a'')),
                        Request (Some ''Bearer devtoken'') (PostDelete (Some ''a''))]
                    (sampleServer [sampleItem ''a'' 0, sampleItem ''b'' 1])) = Some ''a'' \<and>
   storeItems (run [Request (Some ''Bearer devtoken'') (PostSelect (Some ''a'')),
                    Request (Some ''Bearer devtoken'') (PostDelete (Some ''a''))]
                (sampleServer [sampleItem ''a'' 0, sampleItem ''b'' 1])) = [sampleItem ''b'' 0] \<and>
   wire (run [Request (Some ''Bearer devtoken'') (PostSelect (Some ''a'')),
              Request (Some ''Bearer devtoken'') (PostDelete (Some ''a''))]
           (sampleServer [sampleItem ''a'' 0, sampleItem ''b'' 1])) =
     [(1, Payload [sampleItem ''a'' 0, sampleItem ''b'' 1] 100 (Some ''a'')),
      (1, TasksUpdated [sampleItem ''b'' 0] (Some ''a''))]"
  by (simp add: run_def route_def authenticateAdmin_def adminToken_def post_select_def
        post_delete_def deleteTask_def falsy_def orNull_def hasId_def broadcastSelectionUpdate_def
        fanOut_def sendable_def saveTasksFile_def broadcastLastData_def broadcastToAll_def
        splice_remove_def renumber_def storeItems_def sampleServer_def sampleItem_def Let_def)

section \<open>The selection when a task is added (C2)\<close>

text \<open>
  C2, as stated: with two tasks, the first selected, and a third one added,
  \<open>maintainSelection\<close> selects the added task. It does not: the task selected before is
  looked up by id first, it is still there, and its index is kept. Here the result is
  index 0, while the added task is at index 2.
\<close>

theorem selection_bias_counterexample:
  "selectedIndex (maintainSelection [sampleTask ''1'' 0, sampleTask ''2'' 1]
      \<lparr>tasks = [sampleTask ''1'' 0, sampleTask ''2'' 1, sampleTask ''3'' 2], selectedIndex = 0\<rparr>) = 0 \<and>
   findIndex (\<lambda>t. task_id t = ''3'') [sampleTask ''1'' 0, sampleTask ''2'' 1, sampleTask ''3'' 2]
     = Some 2"
  by (simp add: maintainSelection_def at_index_def sampleTask_def)

text \<open>
  C2, amended: when the previous list is \<open>[p, q]\<close>, index 0 is selected, and the new list
  consists of \<open>p\<close>, \<open>q\<close> and one added task \<open>n\<close> with an id of its own (in any order),
  the selected index becomes the first index in the new list of a task with the id of
  \<open>p\<close>: the cursor stays on the task that was selected and is not on the added one.
\<close>

theorem selection_stays_on_selected_task:
  assumes "mset (tasks m) = mset [p, q, n]"
    and "task_id n \<noteq> task_id p" and "task_id n \<noteq> task_id q"
    and "selectedIndex m = 0"
  shows "\<exists>i. findIndex (\<lambda>t. task_id t = task_id p) (tasks m) = Some i \<and>
             selectedIndex (maintainSelection [p, q] m) = int i \<and>
             i < length (tasks m) \<and>
             task_id (tasks m ! i) = task_id p \<and>
             tasks m ! i \<noteq> n"
proof -
  from assms(1) have "set (tasks m) = {p, q, n}"
    by (metis list.simps(15) empty_set mset_eq_setD)
  then have "p \<in> set (tasks m)" by simp
  from findIndex_first [OF this, of "\<lambda>t. task_id t = task_id p"]
  obtain i where i: "findIndex (\<lambda>t. task_id t = task_id p) (tasks m) = Some i"
    "i < length (tasks m)" "task_id (tasks m ! i) = task_id p"
    by auto
  from i(2) have "tasks m \<noteq> []" by auto
  with i(1) assms(4) have "selectedIndex (maintainSelection [p, q] m) = int i"
    by (simp add: maintainSelection_def at_index_def)
  moreover from i(3) assms(2) have "tasks m ! i \<noteq> n" by auto
  ultimately show ?thesis using i by simp
qed

theorem selection_stays_on_selected_task_witness:
  "selectedIndex (maintainSelection [sampleTask ''1'' 0, sampleTask ''2'' 1]
      \<lparr>tasks = [sampleTask ''1'' 0, sampleTask ''2'' 1, sampleTask ''3'' 2], selectedIndex = 0\<rparr>) = 0 \<and>
   mset [sampleTask ''1'' 0, sampleTask ''2'' 1, sampleTask ''3'' 2] =
     mset [sampleTask ''1'' 0, sampleTask ''2'' 1, sampleTask ''3'' 2] \<and>
   task_id (sampleTask ''3'' 2) \<noteq> task_id (sampleTask ''1'' 0) \<and>
   task_id (sampleTask ''3'' 2) \<noteq> task_id (sampleTask ''2'' 1)"
  using selection_stays_on_selected_task [of
      "\<lparr>tasks = [sampleTask ''1'' 0, sampleTask ''2'' 1, sampleTask ''3'' 2], selectedIndex = 0\<rparr>"
      "sampleTask ''1'' 0" "sampleTask ''2'' 1" "sampleTask ''3'' 2"]
  by (simp add: sampleTask_def)

text \<open>
  The cursor goes to the first task that is new only when the task selected before is
  gone and the list has grown.
\<close>

lemma selection_moves_to_new_task:
  assumes "previousTasks \<noteq> []"
    and "at_index previousTasks (selectedIndex m) = Some p"
    and "task_id p \<notin> task_id ` set (tasks m)"
    and "length previousTasks < length (tasks m)"
    and "findIndex (\<lambda>t. task_id t \<notin> set (map task_id previousTasks)) (tasks m) = Some i"
  shows "selectedIndex (maintainSelection previousTasks m) = int i"
proof -
  from assms(3) have "\<forall>x\<in>set (tasks m). task_id x \<noteq> task_id p"
    by (metis imageI)
  then have gone: "findIndex (\<lambda>t. task_id t = task_id p) (tasks m) = None"
    by (simp add: findIndex_None)
  from findIndex_Some [OF assms(5)]
  have "tasks m ! i \<in> set (tasks m)" "task_id (tasks m ! i) \<notin> set (map task_id previousTasks)"
    by simp_all
  then have "filter (\<lambda>t. task_id t \<notin> set (map task_id previousTasks)) (tasks m) \<noteq> []"
    by (auto simp: filter_empty_conv)
  with assms gone show ?thesis
    by (auto simp: maintainSelection_def selectNewTask_def Let_def)
qed

section \<open>Order density (C3)\<close>

text \<open>
  C3, as stated: from a store whose \<open>order\<close> values are dense as a multiset, every sequence
  of mutations leads to a store whose \<open>order\<close> values are dense. This fails: the swap of
  \<open>moveTaskUp\<close> and \<open>moveTaskDown\<close> writes the two indices into the two items it
  touches and relies on every other item carrying its own index. The file
  \<^verbatim>\<open>{"items": [a (order 1), b (order 0), c (order 2)]}\<close> is dense; after
  \<open>moveTaskDown b\<close> the items are \<open>a, c, b\<close> with the orders 1, 1, 2.
\<close>

theorem order_density_counterexample:
  "dense [sampleItem ''a'' 1, sampleItem ''b'' 0, sampleItem ''c'' 2] \<and>
   \<not> dense (storeItems (mutateAll [MoveDown ''b'']
       (sampleServer [sampleItem ''a'' 1, sampleItem ''b'' 0, sampleItem ''c'' 2])))"
proof -
  have u: "[0..<3] = [0, 1, 2]" by (simp add: upt_rec)
  have "storeItems (mutateAll [MoveDown ''b'']
          (sampleServer [sampleItem ''a'' 1, sampleItem ''b'' 0, sampleItem ''c'' 2]))
        = [sampleItem ''a'' 1, sampleItem ''c'' 1, sampleItem ''b'' 2]"
    by (simp add: mutateAll_def moveTaskDown_def moveDownItems_def swapItems_def hasId_def
          sampleServer_def sampleItem_def storeItems_def Let_def)
  then show ?thesis
    by (simp add: dense_def sampleItem_def u)
qed

text \<open>
  C3, amended: from a loaded store in which every item carries its own index as \<open>order\<close>
  (as after any delete, wrap-around move or move to a position), every finite sequence of
  mutations (add, delete, moveUp, moveDown, moveToPosition, and toggle, edit and reset as
  well) leads to a loaded store in which every item carries its own index; the multiset of
  the \<open>order\<close> values of its \<open>N'\<close> items is then \<open>{0, \<dots>, N' - 1}\<close>.
\<close>

theorem order_density_preserved:
  assumes "lastData s = Some d" and "positional (items d)"
  shows "\<exists>d'. lastData (mutateAll ms s) = Some d' \<and> positional (items d') \<and> dense (items d')"
proof -
  from assms(1) mutateAll_loaded [of ms s]
  obtain d' where d': "lastData (mutateAll ms s) = Some d'" by auto
  from assms have "positional (storeItems s)" by (simp add: storeItems_def)
  from mutateAll_positional [OF this, of ms] d'
  have "positional (items d')" by (simp add: storeItems_def)
  with d' show ?thesis by (auto intro: positional_dense)
qed

theorem order_density_preserved_witness:
  "lastData (sampleServer [sampleItem ''a'' 0, sampleItem ''b'' 1, sampleItem ''c'' 2])
     = Some \<lparr>items = [sampleItem ''a'' 0, sampleItem ''b'' 1, sampleItem ''c'' 2], ts = 100,
              data_selectedTaskId = None\<rparr> \<and>
   positional [sampleItem ''a'' 0, sampleItem ''b'' 1, sampleItem ''c'' 2] \<and>
   (\<exists>d'. lastData (mutateAll
              [MoveDown ''b'', Add ''d'' ''new'', Delete ''a'', MoveToPosition ''d'' 0, MoveUp ''d'']
              (sampleServer [sampleItem ''a'' 0, sampleItem ''b'' 1, sampleItem ''c'' 2]))
           = Some d' \<and>
         positional (items d') \<and> dense (items d'))"
proof -
  have u: "[0..<3] = [0, 1, 2]" by (simp add: upt_rec)
  have l: "lastData (sampleServer [sampleItem ''a'' 0, sampleItem ''b'' 1, sampleItem ''c'' 2])
     = Some \<lparr>items = [sampleItem ''a'' 0, sampleItem ''b'' 1, sampleItem ''c'' 2], ts = 100,
              data_selectedTaskId = None\<rparr>"
    by (simp add: sampleServer_def)
  have p: "positional (items \<lparr>items = [sampleItem ''a'' 0, sampleItem ''b'' 1, sampleItem ''c'' 2],
              ts = 100, data_selectedTaskId = None\<rparr>)"
    by (simp add: positional_def sampleItem_def u)
  from order_density_preserved [OF l p] l p show ?thesis by simp
qed

section \<open>Wrap-around (C4)\<close>

text \<open>
  C4: in a store holding the three tasks \<open>[A, B, C]\<close> (with distinct ids),
  \<open>moveTaskUp\<close> of \<open>A\<close> reports success and leaves \<open>[B, C, A]\<close>, and \<open>moveTaskDown\<close>
  of \<open>C\<close> reports success and leaves \<open>[C, A, B]\<close>, the items renumbered 0, 1, 2. In a
  store holding the single task \<open>A\<close> both report success and leave the list \<open>[A]\<close> with
  the order 0, which is the list itself when the order of \<open>A\<close> was 0 (as density
  requires of a single task). For an id that no task has, both return \<open>false\<close> and change
  nothing, and the routes answer 404.
\<close>

theorem wrap_around_moves:
  assumes "lastData s = Some d"
  shows "(items d = [A, B, C] \<longrightarrow>
            fst (moveTaskUp (item_id A) s) \<and>
            storeItems (snd (moveTaskUp (item_id A) s)) =
              [B\<lparr>item_order := Some 0\<rparr>, C\<lparr>item_order := Some 1\<rparr>, A\<lparr>item_order := Some 2\<rparr>]) \<and>
         (items d = [A, B, C] \<and> item_id A \<noteq> item_id C \<and> item_id B \<noteq> item_id C \<longrightarrow>
            fst (moveTaskDown (item_id C) s) \<and>
            storeItems (snd (moveTaskDown (item_id C) s)) =
              [C\<lparr>item_order := Some 0\<rparr>, A\<lparr>item_order := Some 1\<rparr>, B\<lparr>item_order := Some 2\<rparr>]) \<and>
         (items d = [A] \<longrightarrow>
            fst (moveTaskUp (item_id A) s) \<and> fst (moveTaskDown (item_id A) s) \<and>
            storeItems (snd (moveTaskUp (item_id A) s)) = [A\<lparr>item_order := Some 0\<rparr>] \<and>
            storeItems (snd (moveTaskDown (item_id A) s)) = [A\<lparr>item_order := Some 0\<rparr>]) \<and>
         (items d = [A] \<and> item_order A = Some 0 \<longrightarrow>
            storeItems (snd (moveTaskUp (item_id A) s)) = items d \<and>
            storeItems (snd (moveTaskDown (item_id A) s)) = items d) \<and>
         (taskId \<notin> item_id ` set (items d) \<longrightarrow>
            moveTaskUp taskId s = (False, s) \<and> moveTaskDown taskId s = (False, s)) \<and>
         (taskId \<notin> item_id ` set (items d) \<and> taskId \<noteq> [] \<longrightarrow>
            post_move_up (Some taskId) s =
              (Response 404 (Error ''Task not found or cannot move up''), s) \<and>
            post_move_down (Some taskId) s =
              (Response 404 (Error ''Task not found or cannot move down''), s))"
proof (intro conjI impI)
  assume three: "items d = [A, B, C]"
  with assms show "fst (moveTaskUp (item_id A) s)"
    by (simp add: moveTaskUp_def hasId_def Let_def)
  from assms three
  show "storeItems (snd (moveTaskUp (item_id A) s)) =
          [B\<lparr>item_order := Some 0\<rparr>, C\<lparr>item_order := Some 1\<rparr>, A\<lparr>item_order := Some 2\<rparr>]"
    by (simp add: moveTaskUp_def hasId_def Let_def moveUpItems_def splice_remove_def renumber_def)
next
  assume "items d = [A, B, C] \<and> item_id A \<noteq> item_id C \<and> item_id B \<noteq> item_id C"
  then have idx: "findIndex (hasId (item_id C)) (items d) = Some 2" and three: "items d = [A, B, C]"
    by (simp_all add: hasId_def)
  with assms show "fst (moveTaskDown (item_id C) s)"
    by (simp add: moveTaskDown_def Let_def)
  from assms idx three
  show "storeItems (snd (moveTaskDown (item_id C) s)) =
          [C\<lparr>item_order := Some 0\<rparr>, A\<lparr>item_order := Some 1\<rparr>, B\<lparr>item_order := Some 2\<rparr>]"
    by (simp add: moveTaskDown_def Let_def moveDownItems_def splice_remove_def renumber_def)
next
  assume one: "items d = [A]"
  with assms show "fst (moveTaskUp (item_id A) s)" "fst (moveTaskDown (item_id A) s)"
    by (simp_all add: moveTaskUp_def moveTaskDown_def hasId_def Let_def)
  from assms one
  show "storeItems (snd (moveTaskUp (item_id A) s)) = [A\<lparr>item_order := Some 0\<rparr>]"
    by (simp add: moveTaskUp_def hasId_def Let_def moveUpItems_def splice_remove_def renumber_def)
  from assms one
  show "storeItems (snd (moveTaskDown (item_id A) s)) = [A\<lparr>item_order := Some 0\<rparr>]"
    by (simp add: moveTaskDown_def hasId_def Let_def moveDownItems_def splice_remove_def
          renumber_def)
next
  assume one: "items d = [A] \<and> item_order A = Some 0"
  then have same: "A\<lparr>item_order := Some 0\<rparr> = A" by simp
  from assms one same
  show "storeItems (snd (moveTaskUp (item_id A) s)) = items d"
    by (simp add: moveTaskUp_def hasId_def Let_def moveUpItems_def splice_remove_def renumber_def)
  from assms one same
  show "storeItems (snd (moveTaskDown (item_id A) s)) = items d"
    by (simp add: moveTaskDown_def hasId_def Let_def moveDownItems_def splice_remove_def
          renumber_def)
next
  assume "taskId \<notin> item_id ` set (items d)"
  from findIndex_absent [OF this] assms
  show "moveTaskUp taskId s = (False, s)" "moveTaskDown taskId s = (False, s)"
    by (simp_all add: moveTaskUp_def moveTaskDown_def)
next
  assume "taskId \<notin> item_id ` set (items d) \<and> taskId \<noteq> []"
  then have none: "findIndex (hasId taskId) (items d) = None" and ne: "taskId \<noteq> []"
    by (simp_all add: findIndex_absent)
  from none assms have "moveTaskUp taskId s = (False, s)" "moveTaskDown taskId s = (False, s)"
    by (simp_all add: moveTaskUp_def moveTaskDown_def)
  with assms ne
  show "post_move_up (Some taskId) s =
          (Response 404 (Error ''Task not found or cannot move up''), s)"
       "post_move_down (Some taskId) s =
          (Response 404 (Error ''Task not found or cannot move down''), s)"
    by (simp_all add: post_move_up_def post_move_down_def)
qed

theorem wrap_around_moves_witness:
  "storeItems (snd (moveTaskUp ''a''
      (sampleServer [sampleItem ''a'' 0, sampleItem ''b'' 1, sampleItem ''c'' 2]))) =
     [sampleItem ''b'' 0, sampleItem ''c'' 1, sampleItem ''a'' 2] \<and>
   storeItems (snd (moveTaskDown ''c''
      (sampleServer [sampleItem ''a'' 0, sampleItem ''b'' 1, sampleItem ''c'' 2]))) =
     [sampleItem ''c'' 0, sampleItem ''a'' 1, sampleItem ''b'' 2] \<and>
   fst (moveTaskUp ''a'' (sampleServer [sampleItem ''a'' 0])) \<and>
   storeItems (snd (moveTaskUp ''a'' (sampleServer [sampleItem ''a'' 0]))) = [sampleItem ''a'' 0] \<and>
   storeItems (snd (moveTaskDown ''a'' (sampleServer [sampleItem ''a'' 0]))) = [sampleItem ''a'' 0] \<and>
   fst (post_move_up (Some ''z'') (sampleServer [sampleItem ''a'' 0])) =
     Response 404 (Error ''Task not found or cannot move up'') \<and>
   fst (moveTaskDown ''z'' (sampleServer [sampleItem ''a'' 0])) = False"
  using wrap_around_moves [of "sampleServer [sampleItem ''a'' 0, sampleItem ''b'' 1, sampleItem ''c'' 2]"
          "\<lparr>items = [sampleItem ''a'' 0, sampleItem ''b'' 1, sampleItem ''c'' 2], ts = 100,
            data_selectedTaskId = None\<rparr>"
          "sampleItem ''a'' 0" "sampleItem ''b'' 1" "sampleItem ''c'' 2" "''z''"]
        wrap_around_moves [of "sampleServer [sampleItem ''a'' 0]"
          "\<lparr>items = [sampleItem ''a'' 0], ts = 100, data_selectedTaskId = None\<rparr>"
          "sampleItem ''a'' 0" "sampleItem ''b'' 1" "sampleItem ''c'' 2" "''z''"]
  by (simp add: sampleServer_def sampleItem_def)

section \<open>The move to the current position (C5)\<close>

text \<open>
  C5: for every loaded store and every id that a task of it has, the task has a current
  index (the first index with that id); \<open>moveTaskToPosition\<close> clamps the target into
  \<open>[0, N - 1]\<close>; and when the clamped target equals the current index the call returns
  \<open>true\<close> and leaves the whole state as it was (the list, the timestamp, the file, the
  timer and the sockets), so that doing it twice is doing it once; the route answers 200.
\<close>

theorem move_to_current_position:
  assumes "lastData s = Some d" and "taskId \<in> item_id ` set (items d)"
  shows "\<exists>currentIndex.
           findIndex (hasId taskId) (items d) = Some currentIndex \<and>
           currentIndex < length (items d) \<and>
           item_id (items d ! currentIndex) = taskId \<and>
           0 \<le> clampedPosition targetPosition (items d) \<and>
           clampedPosition targetPosition (items d) \<le> of_nat (length (items d) - 1) \<and>
           (clampedPosition targetPosition (items d) = of_nat currentIndex \<longrightarrow>
              moveTaskToPosition taskId targetPosition s = (True, s) \<and>
              snd (moveTaskToPosition taskId targetPosition
                    (snd (moveTaskToPosition taskId targetPosition s))) = s \<and>
              (taskId \<noteq> [] \<and> 0 \<le> targetPosition \<longrightarrow>
                 post_move_to_position (Some taskId) (Some targetPosition) s =
                   (Response 200 (Success [(''message'', Some ''Task moved to position successfully'')]),
                    s)))"
proof -
  from findIndex_present [OF assms(2)]
  obtain i where i: "findIndex (hasId taskId) (items d) = Some i" by blast
  from findIndex_Some [OF i] have bound: "i < length (items d)" and idi: "item_id (items d ! i) = taskId"
    by (simp_all add: hasId_def)
  then have ne: "items d \<noteq> []" by auto
  have lo: "0 \<le> clampedPosition targetPosition (items d)"
    by (simp add: clampedPosition_def)
  from bound have "1 \<le> length (items d)" by arith
  from of_nat_diff [OF this, where 'a = rat]
  have top: "(of_int (int (length (items d)) - 1) :: rat) = of_nat (length (items d) - 1)"
    by simp
  have "max 0 (min targetPosition top') \<le> top'" if "0 \<le> top'" for top' :: rat
    using that by linarith
  from this [of "of_nat (length (items d) - 1)"]
  have hi: "clampedPosition targetPosition (items d) \<le> of_nat (length (items d) - 1)"
    unfolding clampedPosition_def top by simp
  have noop: "moveTaskToPosition taskId targetPosition s = (True, s)"
    if "clampedPosition targetPosition (items d) = of_nat i"
    using that assms(1) i ne by (simp add: moveTaskToPosition_def)
  have "post_move_to_position (Some taskId) (Some targetPosition) s =
          (Response 200 (Success [(''message'', Some ''Task moved to position successfully'')]), s)"
    if "clampedPosition targetPosition (items d) = of_nat i" "taskId \<noteq> []" "0 \<le> targetPosition"
    using that noop assms(1) by (simp add: post_move_to_position_def falsy_def)
  with i bound idi lo hi noop show ?thesis by simp
qed

theorem move_to_current_position_witness:
  "lastData (sampleServer [sampleItem ''a'' 0, sampleItem ''b'' 1, sampleItem ''c'' 2]) =
     Some \<lparr>items = [sampleItem ''a'' 0, sampleItem ''b'' 1, sampleItem ''c'' 2], ts = 100,
            data_selectedTaskId = None\<rparr> \<and>
   findIndex (hasId ''c'') [sampleItem ''a'' 0, sampleItem ''b'' 1, sampleItem ''c'' 2] = Some 2 \<and>
   clampedPosition 7 [sampleItem ''a'' 0, sampleItem ''b'' 1, sampleItem ''c'' 2] = 2 \<and>
   moveTaskToPosition ''c'' 7 (sampleServer [sampleItem ''a'' 0, sampleItem ''b'' 1, sampleItem ''c'' 2])
     = (True, sampleServer [sampleItem ''a'' 0, sampleItem ''b'' 1, sampleItem ''c'' 2])"
proof -
  let ?xs = "[sampleItem ''a'' 0, sampleItem ''b'' 1, sampleItem ''c'' 2]"
  let ?d = "\<lparr>items = ?xs, ts = 100, data_selectedTaskId = None\<rparr>"
  have l: "lastData (sampleServer ?xs) = Some ?d" by (simp add: sampleServer_def)
  have m: "''c'' \<in> item_id ` set (items ?d)" by (simp add: sampleItem_def)
  have f: "findIndex (hasId ''c'') ?xs = Some 2" by (simp add: hasId_def sampleItem_def)
  have c: "clampedPosition 7 ?xs = 2" by (simp add: clampedPosition_def)
  from move_to_current_position [OF l m, of 7] l f c show ?thesis by simp
qed

section \<open>Saving at once and saving after a pause (C6)\<close>

lemma elapse_quiet:
  assumes "\<forall>due. saveTimeout s = Some due \<longrightarrow> clock s + dt < due"
  shows "elapse dt s = s\<lparr>clock := clock s + dt\<rparr>"
  using assms by (auto simp: elapse_def split: option.split)

lemma elapse_due:
  assumes "saveTimeout s = Some due" "clock s \<le> due" "due \<le> clock s + dt"
    and "fsWritable s" "lastData s = Some d"
  shows "diskWrites (elapse dt s) = diskWrites s @ [d\<lparr>ts := int (due div 1000)\<rparr>]"
    and "tasksFile (elapse dt s) =
           Json (items d) (Some (int (due div 1000))) (data_selectedTaskId d)"
    and "saveTimeout (elapse dt s) = None"
    and "lastData (elapse dt s) = Some (d\<lparr>ts := int (due div 1000)\<rparr>)"
proof -
  from assms(2) have "max due (clock s) = due" by simp
  with assms show "diskWrites (elapse dt s) = diskWrites s @ [d\<lparr>ts := int (due div 1000)\<rparr>]"
    and "tasksFile (elapse dt s) =
           Json (items d) (Some (int (due div 1000))) (data_selectedTaskId d)"
    and "saveTimeout (elapse dt s) = None"
    and "lastData (elapse dt s) = Some (d\<lparr>ts := int (due div 1000)\<rparr>)"
    by (simp_all add: elapse_def saveTimerFired_def saveTasksFile_def Let_def)
qed

lemma reorder_disk:
  assumes "\<not> immediate m"
  shows "diskWrites (snd (mutate m s)) = diskWrites s"
    and "tasksFile (snd (mutate m s)) = tasksFile s"
  using assms
  by (cases m;
      simp add: moveTaskUp_def moveTaskDown_def moveTaskToPosition_def Let_def
        split: option.split)+

lemma saveTimeout_broadcastLastData [simp]:
  "saveTimeout (broadcastLastData s) = saveTimeout s"
  by (simp add: broadcastLastData_def broadcastToAll_def fanOut_def split: option.split)

lemma reorder_timer:
  assumes "\<not> immediate m"
  shows "snd (mutate m s) = s \<or>
         (saveTimeout (snd (mutate m s)) = Some (clock s + 100) \<and>
          lastData (snd (mutate m s)) \<noteq> None)"
  using assms
  by (cases m;
      simp add: moveTaskUp_def moveTaskDown_def moveTaskToPosition_def Let_def
        debouncedSave_def split: option.split)+

lemma move_arms_timer:
  "fst (mutate (MoveUp taskId) s) \<Longrightarrow>
     saveTimeout (snd (mutate (MoveUp taskId) s)) = Some (clock s + 100)"
  "fst (mutate (MoveDown taskId) s) \<Longrightarrow>
     saveTimeout (snd (mutate (MoveDown taskId) s)) = Some (clock s + 100)"
  by (auto simp: moveTaskUp_def moveTaskDown_def Let_def debouncedSave_def
        split: option.splits if_splits)

lemma burst_inv:
  assumes "\<forall>call\<in>set calls. \<not> immediate (snd call)"
    and "clock s + sum_list (map fst calls) < limit"
    and "limit \<le> clock s + 100"
    and "\<forall>due. saveTimeout s = Some due \<longrightarrow> limit \<le> due \<and> due \<le> clock s + 100"
  shows "diskWrites (burst calls s) = diskWrites s \<and>
         tasksFile (burst calls s) = tasksFile s \<and>
         fsWritable (burst calls s) = fsWritable s \<and>
         clock (burst calls s) = clock s + sum_list (map fst calls) \<and>
         (\<forall>due. saveTimeout (burst calls s) = Some due \<longrightarrow>
                  limit \<le> due \<and> due \<le> clock (burst calls s) + 100) \<and>
         (saveTimeout (burst calls s) = None \<longrightarrow>
            saveTimeout s = None \<and> lastData (burst calls s) = lastData s) \<and>
         (saveTimeout (burst calls s) \<noteq> None \<longrightarrow>
            saveTimeout s \<noteq> None \<or> lastData (burst calls s) \<noteq> None) \<and>
         ((lastData (burst calls s) = None) = (lastData s = None))"
  using assms
proof (induction calls arbitrary: s)
  case Nil
  then show ?case by simp
next
  case (Cons call calls)
  obtain gap m where call: "call = (gap, m)" by (cases call)
  from Cons.prems(1) call have re: "\<not> immediate m"
    and rest: "\<forall>call\<in>set calls. \<not> immediate (snd call)"
    by simp_all
  from Cons.prems(2) call have budget: "clock s + gap + sum_list (map fst calls) < limit"
    by simp
  then have "\<forall>due. saveTimeout s = Some due \<longrightarrow> clock s + gap < due"
    using Cons.prems(4) by auto
  from elapse_quiet [OF this] have e: "elapse gap s = s\<lparr>clock := clock s + gap\<rparr>" .
  define s1 where "s1 = elapse gap s"
  define s2 where "s2 = snd (mutate m s1)"
  have s1: "clock s1 = clock s + gap" "saveTimeout s1 = saveTimeout s"
    "diskWrites s1 = diskWrites s" "tasksFile s1 = tasksFile s" "fsWritable s1 = fsWritable s"
    "lastData s1 = lastData s"
    by (simp_all add: s1_def e)
  have s2: "clock s2 = clock s + gap" "diskWrites s2 = diskWrites s"
    "tasksFile s2 = tasksFile s" "fsWritable s2 = fsWritable s"
    using s1 reorder_disk [OF re, of s1] by (simp_all add: s2_def)
  from reorder_timer [OF re, of s1]
  have timer: "s2 = s1 \<or> (saveTimeout s2 = Some (clock s + gap + 100) \<and> lastData s2 \<noteq> None)"
    by (simp add: s2_def s1)
  have p2: "clock s2 + sum_list (map fst calls) < limit"
    using budget s2 by simp
  have p3: "limit \<le> clock s2 + 100"
    using Cons.prems(3) s2 by simp
  have p4: "\<forall>due. saveTimeout s2 = Some due \<longrightarrow> limit \<le> due \<and> due \<le> clock s2 + 100"
  proof (intro allI impI)
    fix due
    assume d: "saveTimeout s2 = Some due"
    from timer show "limit \<le> due \<and> due \<le> clock s2 + 100"
    proof
      assume "s2 = s1"
      with d s1 have "saveTimeout s = Some due" by simp
      with Cons.prems(4) have "limit \<le> due" "due \<le> clock s + 100" by auto
      with s2 show ?thesis by simp
    next
      assume "saveTimeout s2 = Some (clock s + gap + 100) \<and> lastData s2 \<noteq> None"
      with d have "due = clock s + gap + 100" by simp
      with Cons.prems(3) s2 show ?thesis by simp
    qed
  qed
  note IH = Cons.IH [OF rest p2 p3 p4]
  have loaded: "(lastData s2 = None) = (lastData s = None)"
    using mutate_loaded [of m s1] s1 by (simp add: s2_def)
  have none: "saveTimeout s2 = None \<longrightarrow> saveTimeout s = None \<and> lastData s2 = lastData s"
    using timer s1 by auto
  have b: "burst (call # calls) s = burst calls s2"
    by (simp add: call s2_def s1_def)
  have armed: "saveTimeout s2 \<noteq> None \<longrightarrow> saveTimeout s \<noteq> None \<or> lastData s2 \<noteq> None"
    using timer s1 by auto
  from IH s2 loaded none armed
  have "diskWrites (burst calls s2) = diskWrites s \<and>
        tasksFile (burst calls s2) = tasksFile s \<and>
        fsWritable (burst calls s2) = fsWritable s \<and>
        clock (burst calls s2) = clock s + sum_list (map fst (call # calls)) \<and>
        (\<forall>due. saveTimeout (burst calls s2) = Some due \<longrightarrow>
                 limit \<le> due \<and> due \<le> clock (burst calls s2) + 100) \<and>
        (saveTimeout (burst calls s2) = None \<longrightarrow>
           saveTimeout s = None \<and> lastData (burst calls s2) = lastData s) \<and>
        (saveTimeout (burst calls s2) \<noteq> None \<longrightarrow>
           saveTimeout s \<noteq> None \<or> lastData (burst calls s2) \<noteq> None) \<and>
        ((lastData (burst calls s2) = None) = (lastData s = None))"
    by (auto simp: call)
  then show ?case unfolding b .
qed


lemma immediate_writes:
  assumes "fsWritable s" "immediate m" "fst (mutate m s)"
  shows "\<exists>d'. lastData (snd (mutate m s)) = Some d' \<and>
              tasksFile (snd (mutate m s)) =
                Json (items d') (Some (ts d')) (data_selectedTaskId d') \<and>
              diskWrites (snd (mutate m s)) = diskWrites s @ [d'] \<and>
              saveTimeout (snd (mutate m s)) = saveTimeout s"
proof -
  have commit: "\<exists>d'. lastData (snd (saveTasksFile (s\<lparr>lastData := Some d1\<rparr>))) = Some d' \<and>
              tasksFile (snd (saveTasksFile (s\<lparr>lastData := Some d1\<rparr>))) =
                Json (items d') (Some (ts d')) (data_selectedTaskId d') \<and>
              diskWrites (snd (saveTasksFile (s\<lparr>lastData := Some d1\<rparr>))) = diskWrites s @ [d'] \<and>
              saveTimeout (snd (saveTasksFile (s\<lparr>lastData := Some d1\<rparr>))) = saveTimeout s"
    for d1
    using assms(1) by (simp add: saveTasksFile_def Let_def)
  from assms show ?thesis
    by (cases m)
       (auto simp: toggleTaskById_def resetAllTasks_def addTask_def deleteTask_def editTask_def
          Let_def split: option.splits intro!: commit)
qed

text \<open>
  C6, as stated, has a delete or reset durable before the caller is told it succeeded.
  \<open>saveTasksFile\<close> catches a failing write, and the route answers from the check it made
  before the call: with a disk that refuses the write, \<open>POST /tasks/delete\<close> answers 200
  and the task is gone from memory while the file still holds it and nothing was written.
\<close>

theorem persistence_counterexample:
  "fst (post_delete (Some ''a'')
         (diskFailing (sampleServer [sampleItem ''a'' 0, sampleItem ''b'' 1]))) =
     Response 200 (Success [(''message'', Some ''Task deleted successfully''),
                            (''deletedTask'', Some ''a'')]) \<and>
   storeItems (snd (post_delete (Some ''a'')
         (diskFailing (sampleServer [sampleItem ''a'' 0, sampleItem ''b'' 1])))) =
     [sampleItem ''b'' 0] \<and>
   tasksFile (snd (post_delete (Some ''a'')
         (diskFailing (sampleServer [sampleItem ''a'' 0, sampleItem ''b'' 1])))) =
     Json [sampleItem ''a'' 0, sampleItem ''b'' 1] (Some 100) None \<and>
   diskWrites (snd (post_delete (Some ''a'')
         (diskFailing (sampleServer [sampleItem ''a'' 0, sampleItem ''b'' 1])))) = []"
  by (simp add: post_delete_def deleteTask_def hasId_def saveTasksFile_def splice_remove_def
        renumber_def diskFailing_def storeItems_def sampleServer_def sampleItem_def Let_def)

text \<open>
  C6, amended: a toggle, add, delete, edit or reset that takes effect writes the file
  within the call, without touching the debounce timer, so that when the write succeeds
  the file holds the new list before the route answers (a 200 of the delete or reset
  route is such a call); a move up or down that takes effect writes nothing and sets the
  timer 100 ms ahead; and a burst of reorder calls that starts with no timer pending and
  takes less than 100 ms in all writes nothing while it lasts, and after 100 ms more has
  written exactly once, the list as the burst left it, if a call of the burst set the
  timer and the file is writable, and nothing if no call set the timer (then the list is
  unchanged).
\<close>

theorem persistence_timing:
  "(fsWritable s \<and> immediate m \<and> fst (mutate m s) \<longrightarrow>
      (\<exists>d'. lastData (snd (mutate m s)) = Some d' \<and>
            tasksFile (snd (mutate m s)) =
              Json (items d') (Some (ts d')) (data_selectedTaskId d') \<and>
            diskWrites (snd (mutate m s)) = diskWrites s @ [d'] \<and>
            saveTimeout (snd (mutate m s)) = saveTimeout s)) \<and>
   (fst (post_delete reqId s) = Response 200 b \<longrightarrow>
      (\<exists>taskId. post_delete reqId s = (Response 200 b, snd (mutate (Delete taskId) s)) \<and>
                fst (mutate (Delete taskId) s))) \<and>
   (fst (post_reset confirm s) = Response 200 b \<longrightarrow>
      post_reset confirm s = (Response 200 b, snd (mutate Reset s)) \<and> fst (mutate Reset s)) \<and>
   (fst (mutate (MoveUp taskId) s) \<longrightarrow>
      saveTimeout (snd (mutate (MoveUp taskId) s)) = Some (clock s + 100) \<and>
      diskWrites (snd (mutate (MoveUp taskId) s)) = diskWrites s) \<and>
   (fst (mutate (MoveDown taskId) s) \<longrightarrow>
      saveTimeout (snd (mutate (MoveDown taskId) s)) = Some (clock s + 100) \<and>
      diskWrites (snd (mutate (MoveDown taskId) s)) = diskWrites s) \<and>
   (saveTimeout s = None \<and> (\<forall>call\<in>set calls. \<not> immediate (snd call)) \<and>
    sum_list (map fst calls) < 100 \<longrightarrow>
      diskWrites (burst calls s) = diskWrites s \<and>
      (saveTimeout (burst calls s) = None \<longrightarrow>
         lastData (burst calls s) = lastData s \<and>
         diskWrites (elapse 100 (burst calls s)) = diskWrites s) \<and>
      (fsWritable s \<longrightarrow>
         (\<forall>due. saveTimeout (burst calls s) = Some due \<longrightarrow>
            (\<exists>d'. lastData (burst calls s) = Some d' \<and>
                  diskWrites (elapse 100 (burst calls s)) =
                    diskWrites s @ [d'\<lparr>ts := int (due div 1000)\<rparr>] \<and>
                  tasksFile (elapse 100 (burst calls s)) =
                    Json (items d') (Some (int (due div 1000))) (data_selectedTaskId d') \<and>
                  saveTimeout (elapse 100 (burst calls s)) = None))))"
proof (intro conjI impI allI)
  assume "fsWritable s \<and> immediate m \<and> fst (mutate m s)"
  then show "\<exists>d'. lastData (snd (mutate m s)) = Some d' \<and>
            tasksFile (snd (mutate m s)) =
              Json (items d') (Some (ts d')) (data_selectedTaskId d') \<and>
            diskWrites (snd (mutate m s)) = diskWrites s @ [d'] \<and>
            saveTimeout (snd (mutate m s)) = saveTimeout s"
    by (intro immediate_writes) simp_all
next
  assume "fst (post_delete reqId s) = Response 200 b"
  then show "\<exists>taskId. post_delete reqId s = (Response 200 b, snd (mutate (Delete taskId) s)) \<and>
                fst (mutate (Delete taskId) s)"
    by (auto simp: post_delete_def deleteTask_def noData_def Let_def
          split: option.splits if_splits)
next
  assume "fst (post_reset confirm s) = Response 200 b"
  then show "post_reset confirm s = (Response 200 b, snd (mutate Reset s))"
    and "fst (mutate Reset s)"
    by (auto simp: post_reset_def resetAllTasks_def noData_def Let_def
          split: option.splits if_splits)
next
  assume "fst (mutate (MoveUp taskId) s)"
  then show "saveTimeout (snd (mutate (MoveUp taskId) s)) = Some (clock s + 100)"
    by (rule move_arms_timer)
  show "diskWrites (snd (mutate (MoveUp taskId) s)) = diskWrites s"
    by (rule reorder_disk) simp
next
  assume "fst (mutate (MoveDown taskId) s)"
  then show "saveTimeout (snd (mutate (MoveDown taskId) s)) = Some (clock s + 100)"
    by (rule move_arms_timer)
  show "diskWrites (snd (mutate (MoveDown taskId) s)) = diskWrites s"
    by (rule reorder_disk) simp
next
  assume h: "saveTimeout s = None \<and> (\<forall>call\<in>set calls. \<not> immediate (snd call)) \<and>
             sum_list (map fst calls) < 100"
  then have "clock s + sum_list (map fst calls) < clock s + 100"
    and "\<forall>due. saveTimeout s = Some due \<longrightarrow> clock s + 100 \<le> due \<and> due \<le> clock s + 100"
    by simp_all
  from burst_inv [OF _ this(1) _ this(2)] h
  have inv: "diskWrites (burst calls s) = diskWrites s"
    "tasksFile (burst calls s) = tasksFile s"
    "fsWritable (burst calls s) = fsWritable s"
    "clock (burst calls s) = clock s + sum_list (map fst calls)"
    "\<forall>due. saveTimeout (burst calls s) = Some due \<longrightarrow>
            clock s + 100 \<le> due \<and> due \<le> clock (burst calls s) + 100"
    "saveTimeout (burst calls s) = None \<longrightarrow> lastData (burst calls s) = lastData s"
    "saveTimeout (burst calls s) \<noteq> None \<longrightarrow> lastData (burst calls s) \<noteq> None"
    by auto
  show "diskWrites (burst calls s) = diskWrites s" by (rule inv(1))
  {
    assume n: "saveTimeout (burst calls s) = None"
    with inv(6) show "lastData (burst calls s) = lastData s" by simp
    from n inv(1) show "diskWrites (elapse 100 (burst calls s)) = diskWrites s"
      by (simp add: elapse_def)
  }
  {
    fix due
    assume w: "fsWritable s" and d: "saveTimeout (burst calls s) = Some due"
    from d inv(7) obtain d' where d': "lastData (burst calls s) = Some d'" by auto
    from d inv(5) have "clock s + 100 \<le> due" "due \<le> clock (burst calls s) + 100" by simp_all
    moreover from inv(4) h have "clock (burst calls s) < clock s + 100" by simp
    ultimately have c: "clock (burst calls s) \<le> due" "due \<le> clock (burst calls s) + 100"
      by simp_all
    from w inv(3) have w': "fsWritable (burst calls s)" by simp
    from elapse_due [OF d c w' d'] d' inv(1)
    show "\<exists>d'. lastData (burst calls s) = Some d' \<and>
               diskWrites (elapse 100 (burst calls s)) =
                 diskWrites s @ [d'\<lparr>ts := int (due div 1000)\<rparr>] \<and>
               tasksFile (elapse 100 (burst calls s)) =
                 Json (items d') (Some (int (due div 1000))) (data_selectedTaskId d') \<and>
               saveTimeout (elapse 100 (burst calls s)) = None"
      by simp
  }
qed

theorem persistence_timing_witness:
  "fsWritable (sampleServer [sampleItem ''a'' 0, sampleItem ''b'' 1, sampleItem ''c'' 2]) \<and>
   immediate (Delete ''a'') \<and>
   fst (mutate (Delete ''a'')
         (sampleServer [sampleItem ''a'' 0, sampleItem ''b'' 1, sampleItem ''c'' 2])) \<and>
   (\<exists>d'. lastData (snd (mutate (Delete ''a'')
             (sampleServer [sampleItem ''a'' 0, sampleItem ''b'' 1, sampleItem ''c'' 2]))) = Some d' \<and>
         diskWrites (snd (mutate (Delete ''a'')
             (sampleServer [sampleItem ''a'' 0, sampleItem ''b'' 1, sampleItem ''c'' 2]))) = [d']) \<and>
   fst (mutate Reset (sampleServer [sampleItem ''a'' 0, sampleItem ''b'' 1, sampleItem ''c'' 2])) \<and>
   saveTimeout (snd (mutate (MoveUp ''b'')
       (sampleServer [sampleItem ''a'' 0, sampleItem ''b'' 1, sampleItem ''c'' 2]))) = Some 5100 \<and>
   saveTimeout (snd (mutate (MoveDown ''b'')
       (sampleServer [sampleItem ''a'' 0, sampleItem ''b'' 1, sampleItem ''c'' 2]))) = Some 5100 \<and>
   sum_list (map fst [(10, MoveUp ''b''), (20, MoveDown ''c''), (30, MoveToPosition ''a'' 0)]) < (100::nat) \<and>
   saveTimeout (burst [(10, MoveUp ''b''), (20, MoveDown ''c''), (30, MoveToPosition ''a'' 0)]
       (sampleServer [sampleItem ''a'' 0, sampleItem ''b'' 1, sampleItem ''c'' 2])) = Some 5160 \<and>
   diskWrites (burst [(10, MoveUp ''b''), (20, MoveDown ''c''), (30, MoveToPosition ''a'' 0)]
       (sampleServer [sampleItem ''a'' 0, sampleItem ''b'' 1, sampleItem ''c'' 2])) = [] \<and>
   length (diskWrites (elapse 100
       (burst [(10, MoveUp ''b''), (20, MoveDown ''c''), (30, MoveToPosition ''a'' 0)]
          (sampleServer [sampleItem ''a'' 0, sampleItem ''b'' 1, sampleItem ''c'' 2])))) = 1 \<and>
   saveTimeout (burst [(10, MoveUp ''z''), (20, MoveToPosition ''a'' 0)]
       (sampleServer [sampleItem ''a'' 0, sampleItem ''b'' 1, sampleItem ''c'' 2])) = None \<and>
   diskWrites (elapse 100 (burst [(10, MoveUp ''z''), (20, MoveToPosition ''a'' 0)]
       (sampleServer [sampleItem ''a'' 0, sampleItem ''b'' 1, sampleItem ''c'' 2]))) = []"
proof -
  let ?s = "sampleServer [sampleItem ''a'' 0, sampleItem ''b'' 1, sampleItem ''c'' 2]"
  let ?calls = "[(10, MoveUp ''b''), (20, MoveDown ''c''), (30, MoveToPosition ''a'' 0)]"
  have env: "fsWritable ?s" "saveTimeout ?s = None" "clock ?s = 5000" "diskWrites ?s = []"
    by (simp_all add: sampleServer_def)
  have ok: "fst (mutate (Delete ''a'') ?s)" "fst (mutate (MoveUp ''b'') ?s)"
    "fst (mutate (MoveDown ''b'') ?s)"
    by (simp_all add: deleteTask_def moveTaskUp_def moveTaskDown_def hasId_def sampleServer_def
          sampleItem_def Let_def)
  have del: "fst (post_delete (Some ''a'') ?s) =
               Response 200 (Success [(''message'', Some ''Task deleted successfully''),
                                      (''deletedTask'', Some ''a'')])"
    by (simp add: post_delete_def hasId_def sampleServer_def sampleItem_def)
  have res: "fst (post_reset True ?s) =
               Response 200 (Success [(''message'', Some ''All tasks reset to incomplete'')])"
    by (simp add: post_reset_def sampleServer_def)
  have re: "\<forall>call\<in>set ?calls. \<not> immediate (snd call)" "sum_list (map fst ?calls) < (100::nat)"
    by simp_all
  have due: "saveTimeout (burst ?calls ?s) = Some 5160"
    by (simp add: elapse_def moveTaskUp_def moveTaskDown_def moveTaskToPosition_def hasId_def
          moveUpItems_def moveDownItems_def swapItems_def splice_remove_def splice_insert_def
          renumber_def clampedPosition_def debouncedSave_def broadcastLastData_def
          broadcastToAll_def fanOut_def sendable_def sampleServer_def sampleItem_def Let_def)
  let ?idle = "[(10, MoveUp ''z''), (20, MoveToPosition ''a'' 0)]"
  have re': "\<forall>call\<in>set ?idle. \<not> immediate (snd call)" "sum_list (map fst ?idle) < (100::nat)"
    by simp_all
  have none: "saveTimeout (burst ?idle ?s) = None"
    by (simp add: elapse_def moveTaskUp_def moveTaskToPosition_def hasId_def
          clampedPosition_def sampleServer_def sampleItem_def Let_def)
  from persistence_timing [of ?s "Delete ''a''" "Some ''a''"
         "Success [(''message'', Some ''Task deleted successfully''), (''deletedTask'', Some ''a'')]"
         True "''b''" ?idle] env re' none
  have idle: "diskWrites (elapse 100 (burst ?idle ?s)) = []" by simp
  from persistence_timing [of ?s "Delete ''a''" "Some ''a''"
         "Success [(''message'', Some ''Task deleted successfully''), (''deletedTask'', Some ''a'')]"
         True "''b''" ?calls]
       persistence_timing [of ?s "Delete ''a''" "Some ''a''"
         "Success [(''message'', Some ''All tasks reset to incomplete'')]" True "''b''" ?calls]
       env ok del res re due none idle
  show ?thesis by auto
qed

section \<open>A failed save (C7)\<close>

text \<open>
  C7: for every mutation and every state, when the write to the file fails the mutation
  returns what it returns when the write succeeds and leaves the same state in memory
  (the task list with its timestamp, the selection, the timer, the sockets and all frames
  sent), while the file is as it was; a mutation that saves at once logs the failure and
  still sends the mutated list to every open socket; a failing write of the debounce
  timer logs the failure and keeps the list; and a later save, once the file is writable,
  succeeds and writes the mutated list.
\<close>

theorem save_failure_keeps_mutation:
  "fst (mutate m (diskFailing s)) = fst (mutate m (diskWritable s)) \<and>
   memory (snd (mutate m (diskFailing s))) = memory (snd (mutate m (diskWritable s))) \<and>
   tasksFile (snd (mutate m (diskFailing s))) = tasksFile s \<and>
   diskWrites (snd (mutate m (diskFailing s))) = diskWrites s \<and>
   (immediate m \<and> fst (mutate m (diskFailing s)) \<longrightarrow>
      ''Failed to save tasks file'' \<in> set (console (snd (mutate m (diskFailing s)))) \<and>
      wire (snd (mutate m (diskFailing s))) =
        wire s @ map (\<lambda>c. (cid c, TasksUpdated (storeItems (snd (mutate m (diskFailing s))))
                                   (orNull (selectedTaskId s))))
                   (filter sendable (clients s))) \<and>
   (lastData s = Some d \<longrightarrow>
      lastData (saveTimerFired (diskFailing s)) = Some (d\<lparr>ts := int (clock s div 1000)\<rparr>) \<and>
      console (saveTimerFired (diskFailing s)) = console s @ [''Failed to save tasks file''] \<and>
      wire (saveTimerFired (diskFailing s)) = wire s \<and>
      clients (saveTimerFired (diskFailing s)) = clients s) \<and>
   (lastData (snd (mutate m (diskFailing s))) = Some d' \<longrightarrow>
      fst (saveTasksFile (diskWritable (snd (mutate m (diskFailing s))))) \<and>
      tasksFile (snd (saveTasksFile (diskWritable (snd (mutate m (diskFailing s)))))) =
        Json (items d') (Some (int (clock s div 1000))) (data_selectedTaskId d') \<and>
      items d' = storeItems (snd (mutate m (diskWritable s))))"
proof (intro conjI impI)
  have same: "memory (diskFailing s) = memory (diskWritable s)"
    by (simp add: memory_def diskFailing_def diskWritable_def)
  from mutate_memory [OF same, of m]
  show "fst (mutate m (diskFailing s)) = fst (mutate m (diskWritable s))"
    and mem: "memory (snd (mutate m (diskFailing s))) = memory (snd (mutate m (diskWritable s)))"
    by simp_all
  have nw: "\<not> fsWritable (diskFailing s)" by (simp add: diskFailing_def)
  from mutate_failing_disk [OF nw, of m]
  show "tasksFile (snd (mutate m (diskFailing s))) = tasksFile s"
    and "diskWrites (snd (mutate m (diskFailing s))) = diskWrites s"
    by (simp_all add: diskFailing_def)
  {
    assume h: "immediate m \<and> fst (mutate m (diskFailing s))"
    with mutate_failing_logged [OF nw, of m]
    show "''Failed to save tasks file'' \<in> set (console (snd (mutate m (diskFailing s))))"
      by simp
    from h mutate_failing_broadcast [OF nw, of m]
    show "wire (snd (mutate m (diskFailing s))) =
        wire s @ map (\<lambda>c. (cid c, TasksUpdated (storeItems (snd (mutate m (diskFailing s))))
                                   (orNull (selectedTaskId s))))
                   (filter sendable (clients s))"
      by (simp add: diskFailing_def)
  }
  {
    assume d: "lastData s = Some d"
    then show "lastData (saveTimerFired (diskFailing s)) = Some (d\<lparr>ts := int (clock s div 1000)\<rparr>)"
      and "console (saveTimerFired (diskFailing s)) = console s @ [''Failed to save tasks file'']"
      and "wire (saveTimerFired (diskFailing s)) = wire s"
      and "clients (saveTimerFired (diskFailing s)) = clients s"
      by (simp_all add: saveTimerFired_def saveTasksFile_def diskFailing_def Let_def)
  }
  {
    assume d': "lastData (snd (mutate m (diskFailing s))) = Some d'"
    let ?s2 = "diskWritable (snd (mutate m (diskFailing s)))"
    have w: "fsWritable ?s2" and l: "lastData ?s2 = Some d'"
      and c: "clock ?s2 = clock s"
      using d' by (simp_all add: diskWritable_def diskFailing_def)
    from saveTasksFile_writable [OF w l] c
    show "fst (saveTasksFile ?s2)"
      and "tasksFile (snd (saveTasksFile ?s2)) =
             Json (items d') (Some (int (clock s div 1000))) (data_selectedTaskId d')"
      by simp_all
    from mem have "lastData (snd (mutate m (diskWritable s))) =
                     lastData (snd (mutate m (diskFailing s)))"
      by (simp add: memory_eq)
    with d' show "items d' = storeItems (snd (mutate m (diskWritable s)))"
      by (simp add: storeItems_def)
  }
qed

theorem save_failure_keeps_mutation_witness:
  "immediate (Toggle ''a'') \<and>
   fst (mutate (Toggle ''a'') (diskFailing (sampleServer [sampleItem ''a'' 0]))) \<and>
   lastData (sampleServer [sampleItem ''a'' 0]) =
     Some \<lparr>items = [sampleItem ''a'' 0], ts = 100, data_selectedTaskId = None\<rparr> \<and>
   lastData (snd (mutate (Toggle ''a'') (diskFailing (sampleServer [sampleItem ''a'' 0])))) =
     Some \<lparr>items = [(sampleItem ''a'' 0)\<lparr>item_done := True, item_completed := Some True\<rparr>],
           ts = 5, data_selectedTaskId = None\<rparr> \<and>
   ''Failed to save tasks file'' \<in>
     set (console (snd (mutate (Toggle ''a'') (diskFailing (sampleServer [sampleItem ''a'' 0]))))) \<and>
   wire (snd (mutate (Toggle ''a'') (diskFailing (sampleServer [sampleItem ''a'' 0])))) =
     [(1, TasksUpdated [(sampleItem ''a'' 0)\<lparr>item_done := True, item_completed := Some True\<rparr>]
            None)] \<and>
   tasksFile (snd (saveTasksFile (diskWritable
       (snd (mutate (Toggle ''a'') (diskFailing (sampleServer [sampleItem ''a'' 0]))))))) =
     Json [(sampleItem ''a'' 0)\<lparr>item_done := True, item_completed := Some True\<rparr>] (Some 5) None"
proof -
  let ?s = "sampleServer [sampleItem ''a'' 0]"
  let ?d' = "\<lparr>items = [(sampleItem ''a'' 0)\<lparr>item_done := True, item_completed := Some True\<rparr>],
           ts = 5, data_selectedTaskId = None\<rparr>"
  have l: "lastData ?s = Some \<lparr>items = [sampleItem ''a'' 0], ts = 100, data_selectedTaskId = None\<rparr>"
    and c: "clock ?s = 5000" "wire ?s = []" "selectedTaskId ?s = None"
      "filter sendable (clients ?s) = [\<lparr>cid = 1, readyState = OPEN, sendThrows = False\<rparr>]"
    by (simp_all add: sampleServer_def sendable_def)
  have r: "fst (mutate (Toggle ''a'') (diskFailing ?s))"
    and l': "lastData (snd (mutate (Toggle ''a'') (diskFailing ?s))) = Some ?d'"
    by (simp_all add: toggleTaskById_def hasId_def saveTasksFile_def diskFailing_def
          sampleServer_def sampleItem_def Let_def)
  from save_failure_keeps_mutation [of "Toggle ''a''" ?s
         "\<lparr>items = [sampleItem ''a'' 0], ts = 100, data_selectedTaskId = None\<rparr>" ?d'] l c r l'
  show ?thesis by (simp add: storeItems_def orNull_def)
qed

section \<open>No broadcast on a timer (C8)\<close>

text \<open>
  The earlier variant of the server did broadcast on its two-second timer whenever it had
  data and a client; the current server has no such timer.
\<close>

lemma earlier_variant_broadcast_on_timer:
  "wire (periodicBroadcast_earlier (sampleServer [sampleItem ''a'' 0])) =
     [(1, Payload [sampleItem ''a'' 0] 100 None)]"
  by (simp add: periodicBroadcast_earlier_def fanOut_def sendable_def sampleServer_def)

text \<open>
  C8: the callback of the only timer of the server (the debounced save) writes nothing to
  any socket, and neither does the passing of time, the close or error of a socket, or
  \<open>GET /tasks\<close>; no run of the server ever sets \<open>broadcastInterval\<close>; a new connection
  sends at most one frame, to the socket that connected; and whenever an event does write
  to a socket, the event is a \<open>POST\<close> request that was answered with 200 (a mutation
  or a selection update), a change of the file, or a new connection.
\<close>

theorem broadcast_only_on_change:
  "wire (saveTimerFired s) = wire s \<and>
   wire (step (Elapse dt) s) = wire s \<and>
   wire (step (SocketClose k) s) = wire s \<and>
   wire (step (SocketError k) s) = wire s \<and>
   wire (step (Request h GetTasks) s) = wire s \<and>
   broadcastInterval (run es (boot file writable now)) = None \<and>
   (wire (step (Connection c) s) = wire s \<or>
    (\<exists>f. wire (step (Connection c) s) = wire s @ [(cid c, f)])) \<and>
   (wire (step e s) \<noteq> wire s \<longrightarrow>
      (\<exists>h' req b. e = Request h' req \<and> req \<noteq> GetTasks \<and>
                  fst (route h' req s) = Response 200 b) \<or>
      e = FileChange \<or> (\<exists>c'. e = Connection c'))"
proof (intro conjI impI)
  show "wire (step (Request h GetTasks) s) = wire s"
    by (simp add: route_def)
  show "wire (step (Connection c) s) = wire s \<or>
        (\<exists>f. wire (step (Connection c) s) = wire s @ [(cid c, f)])"
    by (simp add: sendToClient_def Let_def split: option.split)
next
  assume changed: "wire (step e s) \<noteq> wire s"
  show "(\<exists>h' req b. e = Request h' req \<and> req \<noteq> GetTasks \<and>
                  fst (route h' req s) = Response 200 b) \<or>
        e = FileChange \<or> (\<exists>c'. e = Connection c')"
  proof (cases e)
    case (Request h' req)
    with changed have "snd (route h' req s) \<noteq> s" by auto
    with route_changes_on_success [of h' req s] Request show ?thesis by simp
  next
    case (Elapse dt')
    with changed show ?thesis by simp
  next
    case (SocketClose k')
    with changed show ?thesis by simp
  next
    case (SocketError k')
    with changed show ?thesis by simp
  qed simp_all
qed simp_all

theorem broadcast_only_on_change_witness:
  "wire (step (Request (Some ''Bearer devtoken'') (PostToggle (Some ''a'')))
           (sampleServer [sampleItem ''a'' 0])) \<noteq> wire (sampleServer [sampleItem ''a'' 0]) \<and>
   (\<exists>b. fst (route (Some ''Bearer devtoken'') (PostToggle (Some ''a''))
              (sampleServer [sampleItem ''a'' 0])) = Response 200 b)"
proof -
  have "wire (step (Request (Some ''Bearer devtoken'') (PostToggle (Some ''a'')))
           (sampleServer [sampleItem ''a'' 0])) \<noteq> wire (sampleServer [sampleItem ''a'' 0])"
    by (simp add: route_def authenticateAdmin_def adminToken_def post_toggle_def
          toggleTaskById_def hasId_def saveTasksFile_def broadcastLastData_def
          broadcastToAll_def fanOut_def sendable_def sampleServer_def sampleItem_def Let_def)
  with broadcast_only_on_change [of "sampleServer [sampleItem ''a'' 0]" 0 0 None "[]" Absent True 0
         "\<lparr>cid = 2, readyState = OPEN, sendThrows = False\<rparr>"
         "Request (Some ''Bearer devtoken'') (PostToggle (Some ''a''))"]
  show ?thesis by auto
qed

section \<open>The reconnect back-off (C9)\<close>

lemma small_delay: "k < 5 \<Longrightarrow> min (1000 * 2 ^ k) (30000::nat) = 1000 * 2 ^ k"
proof -
  assume "k < 5"
  then have "(2::nat) ^ k \<le> 2 ^ 4" by (intro power_increasing) simp_all
  then show ?thesis by simp
qed

lemma backoffInv_start: "backoffInv (start (newDataSource ok))"
  by (simp add: backoffInv_def start_def newDataSource_def connectWebSocket_def startPolling_def
        pollOnce_def)

lemma backoffInv_startPolling: "backoffInv a \<Longrightarrow> backoffInv (startPolling a)"
  by (simp add: backoffInv_def startPolling_def pollOnce_def)

lemma backoffInv_pollOnce: "backoffInv a \<Longrightarrow> backoffInv (pollOnce a)"
  by (simp add: backoffInv_def pollOnce_def)

lemma backoffInv_step:
  assumes "backoffInv a" "e \<noteq> SocketOpened"
  shows "backoffInv (agent_step e a)"
proof (cases e)
  case SocketOpened
  with assms show ?thesis by simp
next
  case SocketClosed
  show ?thesis
  proof (cases "socket a = None")
    case True
    with SocketClosed assms show ?thesis by simp
  next
    case False
    with assms(1) have armed: "armedReconnects a = []" by (simp add: backoffInv_def)
    show ?thesis
    proof (cases "reconnectAttempts a < 5")
      case True
      with assms(1) armed False SocketClosed small_delay [OF True] show ?thesis
        by (simp add: backoffInv_def onclose_def scheduleReconnect_def Let_def)
    next
      case no: False
      from assms(1) have "backoffInv (a\<lparr>isConnected := False, socket := None\<rparr>)"
        by (simp add: backoffInv_def)
      from backoffInv_startPolling [OF this] no assms(1) False SocketClosed show ?thesis
        by (simp add: onclose_def Let_def backoffInv_def)
    qed
  qed
next
  case ReconnectTimer
  show ?thesis
  proof (cases "armedReconnects a")
    case Nil
    with ReconnectTimer assms show ?thesis by simp
  next
    case (Cons delay rest)
    with assms(1) have "socket a = None" by (auto simp: backoffInv_def)
    show ?thesis
    proof (cases "constructible a")
      case True
      with Cons assms(1) ReconnectTimer show ?thesis
        by (simp add: connectWebSocket_def backoffInv_def)
    next
      case False
      from assms(1) Cons have "backoffInv (a\<lparr>armedReconnects := rest\<rparr>)"
        by (auto simp: backoffInv_def)
      from backoffInv_startPolling [OF this] False Cons ReconnectTimer show ?thesis
        by (simp add: connectWebSocket_def)
    qed
  qed
next
  case FallbackTimer
  show ?thesis
  proof (cases "fallbackArmed a")
    case True
    from assms(1) have "backoffInv (a\<lparr>fallbackArmed := False\<rparr>)" by (simp add: backoffInv_def)
    with backoffInv_startPolling [OF this] True FallbackTimer show ?thesis
      by (simp add: Let_def)
  next
    case False
    with FallbackTimer assms show ?thesis by simp
  qed
next
  case PollTick
  with assms backoffInv_pollOnce show ?thesis by simp
next
  case ForceReload
  with assms backoffInv_pollOnce show ?thesis by (simp add: forceReload_def)
qed

lemma backoffInv_run:
  "backoffInv a \<Longrightarrow> SocketOpened \<notin> set es \<Longrightarrow> backoffInv (agent_run es a)"
  unfolding agent_run_def
proof (induction es arbitrary: a)
  case Nil
  then show ?case by simp
next
  case (Cons e es)
  from Cons.prems have "e \<noteq> SocketOpened" "SocketOpened \<notin> set es" by auto
  from Cons.IH [OF backoffInv_step [OF Cons.prems(1) this(1)] this(2)]
  show ?case by simp
qed

text \<open>Without a socket and without an armed reconnect timer nothing connects again.\<close>

lemma givenUp_step:
  assumes "givenUp a"
  shows "givenUp (agent_step e a) \<and> connects (agent_step e a) = connects a \<and>
         delays (agent_step e a) = delays a \<and>
         (pollInterval a \<longrightarrow> pollInterval (agent_step e a))"
  using assms
  by (cases e)
     (simp_all add: givenUp_def startPolling_def pollOnce_def forceReload_def Let_def)

lemma givenUp_run:
  assumes "givenUp a"
  shows "givenUp (agent_run es a) \<and> connects (agent_run es a) = connects a \<and>
         delays (agent_run es a) = delays a \<and>
         (pollInterval a \<longrightarrow> pollInterval (agent_run es a))"
  using assms unfolding agent_run_def
proof (induction es arbitrary: a)
  case Nil
  then show ?case by simp
next
  case (Cons e es)
  from givenUp_step [OF Cons.prems, of e] Cons.IH [of "agent_step e a"]
  show ?case by simp
qed

lemma delays_bounded_step:
  assumes "\<forall>x\<in>set (delays a). x \<le> 30000"
  shows "\<forall>x\<in>set (delays (agent_step e a)). x \<le> 30000"
  using assms
  by (cases e)
     (auto simp: onopen_def stopPolling_def onclose_def scheduleReconnect_def startPolling_def
        pollOnce_def connectWebSocket_def forceReload_def Let_def split: list.splits)

lemma delays_bounded_run:
  "\<forall>x\<in>set (delays a). x \<le> 30000 \<Longrightarrow> \<forall>x\<in>set (delays (agent_run es a)). x \<le> 30000"
  unfolding agent_run_def
proof (induction es arbitrary: a)
  case Nil
  then show ?case by simp
next
  case (Cons e es)
  from Cons.IH [OF delays_bounded_step [OF Cons.prems, of e]]
  show ?case by simp
qed

lemma six_failed_cycles: "(failedCycle ^^ 6) (start (newDataSource True)) = exhausted"
proof -
  let ?st = "\<lambda>k t ds c. \<lparr>socket = Some CONNECTING, pollInterval = False, reconnectTimeout = t,
      isConnected = False, currentSource = POLL, reconnectAttempts = k, maxReconnectAttempts = 5,
      constructible = True, armedReconnects = [], fallbackArmed = True,
      delays = ds, connects = c, polls = 0, statuses = []\<rparr>"
  have fc: "failedCycle (?st k t ds c) =
              ?st (Suc k) (Some (min (1000 * 2 ^ k) 30000)) (ds @ [min (1000 * 2 ^ k) 30000]) (Suc c)"
    if "k < 5" for k t ds c
    using that
    by (simp add: failedCycle_def onclose_def scheduleReconnect_def connectWebSocket_def Let_def)
  have a0: "start (newDataSource True) = ?st 0 None [] 1"
    by (simp add: start_def newDataSource_def connectWebSocket_def)
  have a1: "failedCycle (?st 0 None [] 1) = ?st 1 (Some 1000) [1000] 2"
    using fc [of 0 None "[]" 1] by simp
  have a2: "failedCycle (?st 1 (Some 1000) [1000] 2) = ?st 2 (Some 2000) [1000, 2000] 3"
    using fc [of 1 "Some 1000" "[1000]" 2] by simp
  have a3: "failedCycle (?st 2 (Some 2000) [1000, 2000] 3) =
              ?st 3 (Some 4000) [1000, 2000, 4000] 4"
    using fc [of 2 "Some 2000" "[1000, 2000]" 3] by simp
  have a4: "failedCycle (?st 3 (Some 4000) [1000, 2000, 4000] 4) =
              ?st 4 (Some 8000) [1000, 2000, 4000, 8000] 5"
    using fc [of 3 "Some 4000" "[1000, 2000, 4000]" 4] by simp
  have a5: "failedCycle (?st 4 (Some 8000) [1000, 2000, 4000, 8000] 5) =
              ?st 5 (Some 16000) [1000, 2000, 4000, 8000, 16000] 6"
    using fc [of 4 "Some 8000" "[1000, 2000, 4000, 8000]" 5] by simp
  have a6: "failedCycle (?st 5 (Some 16000) [1000, 2000, 4000, 8000, 16000] 6) = exhausted"
    by (simp add: failedCycle_def onclose_def startPolling_def pollOnce_def Let_def
          exhausted_def)
  have "(failedCycle ^^ 6) a = failedCycle (failedCycle (failedCycle (failedCycle (failedCycle
          (failedCycle a)))))" for a
    by (simp add: eval_nat_numeral funpow_swap1)
  then show ?thesis
    by (simp only: a0 a1 a2 a3 a4 a5 a6)
qed

text \<open>
  C9: \<open>scheduleReconnect\<close> schedules the reconnect after
  \<open>min (1000 * 2 ^ attempts) 30000\<close> ms and increments \<open>attempts\<close>; no delay ever
  scheduled exceeds 30000 ms, whatever happens to the data source. As long as the socket
  never opens, at most five reconnects are scheduled, the \<open>k\<close>-th after \<open>1000 * 2 ^ k\<close>
  ms, and at most six sockets are constructed. Six failed cycles from \<open>start\<close> lead to the
  state \<open>exhausted\<close>. When a socket closes with the attempts used up, the data source
  is left without socket and without reconnect timer, polling; and from such a state, for
  the rest of the session, no socket is constructed, no reconnect is scheduled, and the
  polling stays on.
\<close>

theorem reconnect_backoff:
  "(delays (scheduleReconnect a) = delays a @ [min (1000 * 2 ^ reconnectAttempts a) 30000] \<and>
    reconnectAttempts (scheduleReconnect a) = reconnectAttempts a + 1 \<and>
    min (1000 * 2 ^ reconnectAttempts a) 30000 \<le> (30000::nat)) \<and>
   ((\<forall>x\<in>set (delays a). x \<le> 30000) \<longrightarrow> (\<forall>x\<in>set (delays (agent_run es a)). x \<le> 30000)) \<and>
   (SocketOpened \<notin> set es \<longrightarrow>
      reconnectAttempts (agent_run es (start (newDataSource ok))) \<le> 5 \<and>
      delays (agent_run es (start (newDataSource ok))) =
        map (\<lambda>k. 1000 * 2 ^ k) [0..<reconnectAttempts (agent_run es (start (newDataSource ok)))] \<and>
      connects (agent_run es (start (newDataSource ok))) \<le> 6) \<and>
   (failedCycle ^^ 6) (start (newDataSource True)) = exhausted \<and>
   (socket a \<noteq> None \<and> armedReconnects a = [] \<and> maxReconnectAttempts a \<le> reconnectAttempts a \<longrightarrow>
      givenUp (agent_step SocketClosed a) \<and> pollInterval (agent_step SocketClosed a) \<and>
      delays (agent_step SocketClosed a) = delays a \<and>
      connects (agent_step SocketClosed a) = connects a) \<and>
   (givenUp a \<longrightarrow>
      givenUp (agent_run es a) \<and> connects (agent_run es a) = connects a \<and>
      delays (agent_run es a) = delays a \<and>
      (pollInterval a \<longrightarrow> pollInterval (agent_run es a)))"
proof (intro conjI impI)
  show "delays (scheduleReconnect a) = delays a @ [min (1000 * 2 ^ reconnectAttempts a) 30000]"
    and "reconnectAttempts (scheduleReconnect a) = reconnectAttempts a + 1"
    by (simp_all add: scheduleReconnect_def Let_def)
  show "min (1000 * 2 ^ reconnectAttempts a) 30000 \<le> (30000::nat)" by simp
next
  assume "\<forall>x\<in>set (delays a). x \<le> 30000"
  then show "\<forall>x\<in>set (delays (agent_run es a)). x \<le> 30000" by (rule delays_bounded_run)
next
  assume "SocketOpened \<notin> set es"
  from backoffInv_run [OF backoffInv_start this, of ok]
  have inv: "backoffInv (agent_run es (start (newDataSource ok)))" .
  then show "reconnectAttempts (agent_run es (start (newDataSource ok))) \<le> 5"
    and "delays (agent_run es (start (newDataSource ok))) =
        map (\<lambda>k. 1000 * 2 ^ k) [0..<reconnectAttempts (agent_run es (start (newDataSource ok)))]"
    by (simp_all add: backoffInv_def)
  from inv show "connects (agent_run es (start (newDataSource ok))) \<le> 6"
    unfolding backoffInv_def by linarith
next
  show "(failedCycle ^^ 6) (start (newDataSource True)) = exhausted" by (rule six_failed_cycles)
next
  assume h: "socket a \<noteq> None \<and> armedReconnects a = [] \<and> maxReconnectAttempts a \<le> reconnectAttempts a"
  then show "givenUp (agent_step SocketClosed a)" "pollInterval (agent_step SocketClosed a)"
    "delays (agent_step SocketClosed a) = delays a"
    "connects (agent_step SocketClosed a) = connects a"
    by (simp_all add: onclose_def startPolling_def pollOnce_def givenUp_def Let_def)
next
  assume g: "givenUp a"
  from givenUp_run [OF g, of es]
  show "givenUp (agent_run es a)" "connects (agent_run es a) = connects a"
    "delays (agent_run es a) = delays a"
    by simp_all
  assume "pollInterval a"
  with givenUp_run [OF g, of es] show "pollInterval (agent_run es a)" by simp
qed

theorem reconnect_backoff_witness:
  "delays exhausted = [1000, 2000, 4000, 8000, 16000] \<and>
   givenUp exhausted \<and> pollInterval exhausted \<and>
   connects (agent_run [SocketClosed, ReconnectTimer, PollTick, ForceReload]
               (start (newDataSource True))) \<le> 6 \<and>
   connects (agent_run [SocketClosed, ReconnectTimer, PollTick, ForceReload] exhausted) = 6 \<and>
   delays (agent_run [SocketClosed, ReconnectTimer, PollTick, ForceReload] exhausted) =
     [1000, 2000, 4000, 8000, 16000] \<and>
   pollInterval (agent_run [SocketClosed, ReconnectTimer, PollTick, ForceReload] exhausted) \<and>
   socket (exhausted\<lparr>socket := Some CONNECTING\<rparr>) \<noteq> None \<and>
   givenUp (agent_step SocketClosed (exhausted\<lparr>socket := Some CONNECTING\<rparr>))"
proof -
  let ?es = "[SocketClosed, ReconnectTimer, PollTick, ForceReload]"
  have b: "\<forall>x\<in>set (delays exhausted). x \<le> 30000" by (simp add: exhausted_def)
  have o: "SocketOpened \<notin> set ?es" by simp
  have g: "givenUp exhausted" "pollInterval exhausted" by (simp_all add: givenUp_def exhausted_def)
  have v: "connects exhausted = 6" "delays exhausted = [1000, 2000, 4000, 8000, 16000]"
    by (simp_all add: exhausted_def)
  have t: "socket (exhausted\<lparr>socket := Some CONNECTING\<rparr>) \<noteq> None \<and>
           armedReconnects (exhausted\<lparr>socket := Some CONNECTING\<rparr>) = [] \<and>
           maxReconnectAttempts (exhausted\<lparr>socket := Some CONNECTING\<rparr>)
             \<le> reconnectAttempts (exhausted\<lparr>socket := Some CONNECTING\<rparr>)"
    by (simp add: exhausted_def)
  from reconnect_backoff [of exhausted ?es True]
       reconnect_backoff [of "exhausted\<lparr>socket := Some CONNECTING\<rparr>" ?es True]
       b o g v t
  show ?thesis by simp
qed

section \<open>The two completion flags (C10)\<close>

text \<open>
  C10, as stated, ends: after any mutation a reader of \<open>GET /tasks\<close> never sees \<open>done\<close>
  and \<open>completed\<close> disagree. The route reports \<open>completed = done || completed || false\<close>
  and leaves \<open>done\<close> as stored, so an item stored with \<open>done = false\<close> and
  \<open>completed = true\<close> (the file can hold one, and \<open>toggle-next\<close> reckons with one) is
  reported with the flags disagreeing, also after a mutation of another task: here \<open>y\<close> is
  toggled and \<open>x\<close> is still reported as not done and completed.
\<close>

theorem completion_flags_counterexample:
  "fst (get_tasks (snd (mutate (Toggle ''y'')
         (sampleServer [staleItem ''x'' 0, sampleItem ''y'' 1])))) =
     Response 200 (Tasks [staleItem ''x'' 0,
                          (sampleItem ''y'' 1)\<lparr>item_done := True, item_completed := Some True\<rparr>]) \<and>
   \<not> item_done (staleItem ''x'' 0) \<and> item_completed (staleItem ''x'' 0) = Some True"
  by (simp add: toggleTaskById_def get_tasks_def completedFlag_def hasId_def saveTasksFile_def
        broadcastLastData_def broadcastToAll_def fanOut_def sampleServer_def sampleItem_def
        staleItem_def Let_def)

text \<open>
  C10, amended: in a loaded store, \<open>toggleTaskById\<close> leaves the toggled task with
  \<open>completed = done\<close> (and \<open>done\<close> flipped), \<open>resetAllTasks\<close> leaves every task with both
  flags false, \<open>addTask\<close> appends a task with both flags false, and \<open>GET /tasks\<close> returns
  every task with \<open>completed = done || completed || false\<close>; so if no task is stored with
  \<open>done = false\<close> and \<open>completed = true\<close>, then after any mutation every task that
  \<open>GET /tasks\<close> returns has \<open>completed\<close> equal to \<open>done\<close>.
\<close>

theorem completion_flags_after_mutation:
  assumes "lastData s = Some d"
  shows "(findIndex (hasId taskId) (items d) = Some i \<longrightarrow>
            flagsAgree (storeItems (snd (toggleTaskById taskId s)) ! i) \<and>
            item_done (storeItems (snd (toggleTaskById taskId s)) ! i) = (\<not> item_done (items d ! i))) \<and>
         list_all (\<lambda>item. \<not> item_done item \<and> flagsAgree item)
            (storeItems (snd (resetAllTasks s))) \<and>
         flagsAgree (last (storeItems (snd (addTask newId taskText s)))) \<and>
         \<not> item_done (last (storeItems (snd (addTask newId taskText s)))) \<and>
         fst (get_tasks s) =
           Response 200 (Tasks (map (\<lambda>item. item\<lparr>item_completed :=
                                  Some (item_done item \<or> item_completed item = Some True)\<rparr>)
                                (items d))) \<and>
         (list_all noStaleCompleted (items d) \<longrightarrow>
            (\<exists>out. fst (get_tasks (snd (mutate m s))) = Response 200 (Tasks out) \<and>
                   list_all flagsAgree out))"
proof (intro conjI impI)
  assume idx: "findIndex (hasId taskId) (items d) = Some i"
  from findIndex_Some [OF this] have "i < length (items d)" by simp
  with assms idx
  show "flagsAgree (storeItems (snd (toggleTaskById taskId s)) ! i)"
    and "item_done (storeItems (snd (toggleTaskById taskId s)) ! i) = (\<not> item_done (items d ! i))"
    by (simp_all add: toggleTaskById_def Let_def flagsAgree_def)
next
  from assms
  show "list_all (\<lambda>item. \<not> item_done item \<and> flagsAgree item) (storeItems (snd (resetAllTasks s)))"
    by (simp add: resetAllTasks_def Let_def list_all_iff flagsAgree_def)
next
  from assms
  show "flagsAgree (last (storeItems (snd (addTask newId taskText s))))"
    and "\<not> item_done (last (storeItems (snd (addTask newId taskText s))))"
    by (simp_all add: addTask_def Let_def flagsAgree_def)
next
  have "completedFlag item = (item_done item \<or> item_completed item = Some True)" for item
    by (cases "item_completed item") (simp_all add: completedFlag_def)
  with assms
  show "fst (get_tasks s) =
          Response 200 (Tasks (map (\<lambda>item. item\<lparr>item_completed :=
                                 Some (item_done item \<or> item_completed item = Some True)\<rparr>)
                               (items d)))"
    by (simp add: get_tasks_def)
next
  assume "list_all noStaleCompleted (items d)"
  with assms have "list_all noStaleCompleted (storeItems s)" by (simp add: storeItems_def)
  from mutate_noStale [OF this, of m]
  have after: "list_all noStaleCompleted (storeItems (snd (mutate m s)))" .
  from assms mutate_loaded [of m s]
  obtain d' where d': "lastData (snd (mutate m s)) = Some d'" by auto
  with after have "list_all noStaleCompleted (items d')" by (simp add: storeItems_def)
  from get_tasks_agree [OF d' this]
  show "\<exists>out. fst (get_tasks (snd (mutate m s))) = Response 200 (Tasks out) \<and>
              list_all flagsAgree out"
    by blast
qed

theorem completion_flags_after_mutation_witness:
  "findIndex (hasId ''a'') [sampleItem ''a'' 0, sampleItem ''b'' 1] = Some 0 \<and>
   list_all noStaleCompleted [sampleItem ''a'' 0, sampleItem ''b'' 1] \<and>
   flagsAgree (storeItems (snd (toggleTaskById ''a''
       (sampleServer [sampleItem ''a'' 0, sampleItem ''b'' 1]))) ! 0) \<and>
   item_done (storeItems (snd (toggleTaskById ''a''
       (sampleServer [sampleItem ''a'' 0, sampleItem ''b'' 1]))) ! 0) \<and>
   (\<exists>out. fst (get_tasks (snd (mutate (Toggle ''b'')
              (sampleServer [sampleItem ''a'' 0, sampleItem ''b'' 1])))) = Response 200 (Tasks out) \<and>
      list_all flagsAgree out)"
proof -
  let ?xs = "[sampleItem ''a'' 0, sampleItem ''b'' 1]"
  let ?d = "\<lparr>items = ?xs, ts = 100, data_selectedTaskId = None\<rparr>"
  have l: "lastData (sampleServer ?xs) = Some ?d" by (simp add: sampleServer_def)
  have f: "findIndex (hasId ''a'') (items ?d) = Some 0" by (simp add: hasId_def sampleItem_def)
  have n: "list_all noStaleCompleted (items ?d)" by (simp add: noStaleCompleted_def sampleItem_def)
  have a: "item_done (items ?d ! 0) = False" by (simp add: sampleItem_def)
  from completion_flags_after_mutation [OF l, of "''a''" 0 "''n''" "''t''" "Toggle ''b''"] f n a
  show ?thesis by simp
qed


end
